theory Spec2Isabelle
  imports Complex_Main "HOL-Library.Word"
begin

unbundle bit_operations_syntax

section \<open>Data model\<close>

text \<open>
  The Go program keeps times in \<open>float64\<close> (and screen positions in \<open>float32\<close>);
  they are modelled as \<open>real\<close>, so rounding of floating point arithmetic is not part of
  the model. Scores and counters are \<open>int32\<close> in the source and \<open>int\<close> here: a session
  of thirty seconds cannot bring them near \<open>2 ^ 31\<close>. The wall clock (\<open>time.Now\<close>,
  \<open>time.Since\<close>) and the keyboard (\<open>rl.IsKeyDown\<close>, \<open>rl.IsKeyPressed\<close>,
  \<open>rl.IsKeyReleased\<close>) are inputs of the functions that read them. Printing is left out.
\<close>

datatype error = IndexOutOfRange | UnexpectedEndOfData | NoTracksLoaded | NoGuitarTrackFound
  | ParseFailed | AudioNotReady | AudioNotInitialized

datatype GameState = StateMenu | StatePlaying | StateGameOver

datatype HitAccuracy = Miss | OK | Good | Perfect

record MIDINote =
  Pitch :: int
  Velocity :: int
  StartTime_midi :: real
  Duration_midi :: real
  Lane_midi :: int

record MIDITrack =
  Name :: string
  Channel :: int
  Instrument :: int
  Notes :: "MIDINote list"
  IsGuitar :: bool

record MIDIProcessor =
  filePath :: string
  tracks :: "MIDITrack list"
  guitarTrack :: "nat option"

record GameNote =
  StartTime :: real
  Duration :: real
  Lane :: int
  Y :: real
  Width :: real
  Height :: real
  IsActive :: bool
  IsHit :: bool
  HitAccuracy :: HitAccuracy
  IsPressed :: bool
  PressStartTime :: real
  IsBeingHeld :: bool
  SustainProgress :: real

record Lane_rec =
  X_lane :: real
  Width_lane :: real
  IsPressed_lane :: bool
  KeyCode :: int

text \<open>A \<open>time.Time\<close> is \<open>None\<close> when it is the zero time and \<open>Some t\<close> otherwise.\<close>

record MIDIAudioStreamer =
  notes_ms :: "MIDINote list"
  currentSample :: int
  startTime_ms :: "real option"

record AudioManager =
  isInitialized :: bool
  isPlaying :: bool
  musicStream :: "MIDIAudioStreamer option"
  currentTime_am :: real
  startTime_am :: "real option"

text \<open>
  The array \<open>lanes [3]Lane\<close> is a function on the indices 0, 1 and 2; an index outside
  panics in Go and is the error \<open>IndexOutOfRange\<close> here.
\<close>

record Game =
  screenWidth :: int
  screenHeight :: int
  audioManager :: "AudioManager option"
  gameNotes :: "GameNote list"
  score :: int
  combo :: int
  maxCombo :: int
  state :: GameState
  gameStartTime :: real
  currentTime :: real
  songDuration :: real
  hitLine :: real
  lanes :: "nat \<Rightarrow> Lane_rec"
  perfectHits :: int
  goodHits :: int
  okHits :: int
  missedHits :: int
  totalNotes :: int

record Keyboard =
  IsKeyDown :: "int \<Rightarrow> bool"
  IsKeyPressed :: "int \<Rightarrow> bool"
  IsKeyReleased :: "int \<Rightarrow> bool"

definition LANE_WIDTH :: real where "LANE_WIDTH = 200"
definition NOTE_HEIGHT :: real where "NOTE_HEIGHT = 40"
definition NOTE_SPEED :: real where "NOTE_SPEED = 200"
definition GAME_DURATION :: real where "GAME_DURATION = 30"

section \<open>Gameplay engine\<close>

subsection \<open>Judgment and scoring\<close>

definition calculateAccuracy :: "real \<Rightarrow> HitAccuracy" where
  "calculateAccuracy timeDiff =
     (let absTimeDiff = (if timeDiff < 0 then - timeDiff else timeDiff)
      in if absTimeDiff \<le> 0.05 then Perfect
         else if absTimeDiff \<le> 0.1 then Good
         else if absTimeDiff \<le> 0.15 then OK
         else Miss)"

definition addScore :: "HitAccuracy \<Rightarrow> Game \<Rightarrow> Game" where
  "addScore accuracy g =
     (let g1 = (case accuracy of
                  Perfect \<Rightarrow> g\<lparr>score := score g + 100, combo := combo g + 1,
                                perfectHits := perfectHits g + 1\<rparr>
                | Good \<Rightarrow> g\<lparr>score := score g + 75, combo := combo g + 1,
                             goodHits := goodHits g + 1\<rparr>
                | OK \<Rightarrow> g\<lparr>score := score g + 50, combo := combo g + 1,
                           okHits := okHits g + 1\<rparr>
                | Miss \<Rightarrow> g\<lparr>combo := 0, missedHits := missedHits g + 1\<rparr>);
          g2 = (if combo g1 > maxCombo g1 then g1\<lparr>maxCombo := combo g1\<rparr> else g1)
      in if combo g2 > 10 then g2\<lparr>score := score g2 + combo g2 div 10\<rparr> else g2)"

text \<open>The conversion \<open>int32(x)\<close> of a float truncates towards zero.\<close>

definition int32_of_float :: "real \<Rightarrow> int" where
  "int32_of_float x = (if 0 \<le> x then \<lfloor>x\<rfloor> else \<lceil>x\<rceil>)"

definition isSustainedNote :: "GameNote \<Rightarrow> bool" where
  "isSustainedNote note = (Duration note > 0.3)"

subsection \<open>Loops over the notes\<close>

text \<open>
  A loop \<open>for i := range g.gameNotes { note := &g.gameNotes[i]; ... }\<close> whose body changes
  the note and the counters of the game is a recursion over the list of notes that threads
  the game; the body is a function of its own, named after the loop's function with the
  suffix \<open>_note\<close>. While the loop runs the field \<open>gameNotes\<close> of the threaded game is not
  read; the function that owns the loop stores the new list in it at the end.
\<close>

fun notes_loop ::
  "(GameNote \<Rightarrow> Game \<Rightarrow> GameNote \<times> Game) \<Rightarrow> GameNote list \<Rightarrow> Game \<Rightarrow> GameNote list \<times> Game"
where
  "notes_loop body [] g = ([], g)"
| "notes_loop body (note # rest) g =
     (case body note g of
        (note', g1) \<Rightarrow> (case notes_loop body rest g1 of (rest', g2) \<Rightarrow> (note' # rest', g2)))"

subsection \<open>checkMissedNotes\<close>

definition checkMissedNotes_note :: "GameNote \<Rightarrow> Game \<Rightarrow> GameNote \<times> Game" where
  "checkMissedNotes_note note g =
     (if \<not> IsActive note then (note, g)
      else if IsHit note then (note, g)
      else if currentTime g > StartTime note + 0.2
        then (note\<lparr>IsHit := True, HitAccuracy := Miss\<rparr>, addScore Miss g)
        else (note, g))"

definition checkMissedNotes :: "Game \<Rightarrow> Game" where
  "checkMissedNotes g =
     (case notes_loop checkMissedNotes_note (gameNotes g) g of
        (ns, g') \<Rightarrow> g'\<lparr>gameNotes := ns\<rparr>)"

subsection \<open>updateNotes\<close>

definition updateNotes_note :: "Game \<Rightarrow> GameNote \<Rightarrow> GameNote" where
  "updateNotes_note g note =
     (if \<not> IsActive note then note
      else let timeUntilHit = StartTime note - currentTime g;
               note1 = note\<lparr>Y := hitLine g - timeUntilHit * NOTE_SPEED\<rparr>
           in if Y note1 > real_of_int (screenHeight g) + 50
              then note1\<lparr>IsActive := False\<rparr> else note1)"

definition updateNotes :: "Game \<Rightarrow> Game" where
  "updateNotes g = g\<lparr>gameNotes := map (updateNotes_note g) (gameNotes g)\<rparr>"

subsection \<open>updateSustainedNotes\<close>

text \<open>
  A note is only ever pressed by \<open>handleKeyPress\<close> when its duration is above 0.3
  seconds, so the division by the duration is a division by a positive number on the
  notes this body works on; what Go's floating point division gives for a zero duration
  (an infinity or NaN) is not part of the model. The quotient here is the real one, where
  the \<open>float64\<close> quotient is rounded: in a frame exactly at the end of a note the code can
  store a progress just below 1 where the model stores 1. The properties below speak of
  the progress as stored in the note, not of the value of the quotient.
\<close>

definition updateSustainedNotes_note :: "GameNote \<Rightarrow> Game \<Rightarrow> error + GameNote \<times> Game" where
  "updateSustainedNotes_note note g =
     (if \<not> IsActive note then Inr (note, g)
      else if \<not> IsPressed note then Inr (note, g)
      else if IsHit note then Inr (note, g)
      else if Lane note < 0 then Inl IndexOutOfRange
      else if 3 \<le> Lane note then Inl IndexOutOfRange
      else
        let lanePressed = IsPressed_lane (lanes g (nat (Lane note))) in
        if lanePressed then
          let noteElapsed = currentTime g - StartTime note;
              progress = noteElapsed / Duration note;
              clamped = (if progress < 0 then 0 else if progress > 1 then 1 else progress);
              note1 = note\<lparr>SustainProgress := clamped, IsBeingHeld := True\<rparr>;
              noteEndTime = StartTime note + Duration note
          in if currentTime g \<ge> noteEndTime then
               let note2 = note1\<lparr>IsPressed := False, IsBeingHeld := False, IsHit := True\<rparr>;
                   accuracy = HitAccuracy note2;
                   g1 = addScore accuracy g
               in if SustainProgress note2 > 0.8
                  then Inr (note2, g1\<lparr>score := score g1 + int32_of_float (50 * SustainProgress note2)\<rparr>)
                  else Inr (note2, g1)
             else Inr (note1, g)
        else Inr (note\<lparr>IsPressed := False, IsBeingHeld := False, IsHit := True,
                        HitAccuracy := Miss\<rparr>, addScore Miss g))"

fun updateSustainedNotes_loop :: "GameNote list \<Rightarrow> Game \<Rightarrow> error + GameNote list \<times> Game" where
  "updateSustainedNotes_loop [] g = Inr ([], g)"
| "updateSustainedNotes_loop (note # rest) g =
     (case updateSustainedNotes_note note g of
        Inl e \<Rightarrow> Inl e
      | Inr (note', g1) \<Rightarrow>
          (case updateSustainedNotes_loop rest g1 of
             Inl e \<Rightarrow> Inl e
           | Inr (rest', g2) \<Rightarrow> Inr (note' # rest', g2)))"

definition updateSustainedNotes :: "Game \<Rightarrow> error + Game" where
  "updateSustainedNotes g =
     (case updateSustainedNotes_loop (gameNotes g) g of
        Inl e \<Rightarrow> Inl e
      | Inr (ns, g') \<Rightarrow> Inr (g'\<lparr>gameNotes := ns\<rparr>))"

subsection \<open>Key press\<close>

text \<open>
  \<open>findClosestNote\<close> returns a pointer into \<open>g.gameNotes\<close>, here the index of the note;
  \<open>nil\<close> is \<open>None\<close>.
\<close>

fun findClosestNote_loop ::
  "real \<Rightarrow> int \<Rightarrow> GameNote list \<Rightarrow> nat \<Rightarrow> real \<Rightarrow> nat option \<Rightarrow> nat option"
where
  "findClosestNote_loop now laneIndex [] i minDistance closestNote = closestNote"
| "findClosestNote_loop now laneIndex (note # rest) i minDistance closestNote =
     (if \<not> IsActive note then findClosestNote_loop now laneIndex rest (Suc i) minDistance closestNote
      else if IsHit note then findClosestNote_loop now laneIndex rest (Suc i) minDistance closestNote
      else if IsPressed note then findClosestNote_loop now laneIndex rest (Suc i) minDistance closestNote
      else if Lane note \<noteq> laneIndex then findClosestNote_loop now laneIndex rest (Suc i) minDistance closestNote
      else
        let distance = StartTime note - now in
        if distance < minDistance \<and> distance > - 0.2
        then findClosestNote_loop now laneIndex rest (Suc i) distance (Some i)
        else findClosestNote_loop now laneIndex rest (Suc i) minDistance closestNote)"

definition findClosestNote :: "Game \<Rightarrow> int \<Rightarrow> nat option" where
  "findClosestNote g laneIndex =
     findClosestNote_loop (currentTime g) laneIndex (gameNotes g) 0 1000000 None"

definition handleKeyPress :: "int \<Rightarrow> Game \<Rightarrow> Game" where
  "handleKeyPress laneIndex g =
     (case findClosestNote g laneIndex of
        None \<Rightarrow> g
      | Some i \<Rightarrow>
          let closestNote = gameNotes g ! i;
              timeDiff = currentTime g - StartTime closestNote;
              accuracy = calculateAccuracy timeDiff
          in if accuracy \<noteq> Miss then
               if isSustainedNote closestNote then
                 g\<lparr>gameNotes := (gameNotes g)
                     [i := closestNote\<lparr>IsPressed := True, PressStartTime := currentTime g,
                                      IsBeingHeld := True, HitAccuracy := accuracy\<rparr>]\<rparr>
               else
                 addScore accuracy
                   (g\<lparr>gameNotes := (gameNotes g)
                       [i := closestNote\<lparr>IsHit := True, HitAccuracy := accuracy\<rparr>]\<rparr>)
             else g)"

subsection \<open>Key release\<close>

definition handleKeyRelease_note :: "GameNote \<Rightarrow> Game \<Rightarrow> GameNote \<times> Game" where
  "handleKeyRelease_note note g =
     (let noteEndTime = StartTime note + Duration note;
          releaseTimeDiff = currentTime g - noteEndTime;
          releaseAccuracy = calculateAccuracy releaseTimeDiff;
          note1 = note\<lparr>IsPressed := False, IsBeingHeld := False, IsHit := True\<rparr>;
          finalAccuracy = HitAccuracy note1;
          finalAccuracy = (if releaseAccuracy = Miss then
                             (if finalAccuracy = Perfect then Good
                              else if finalAccuracy = Good then OK
                              else finalAccuracy)
                           else finalAccuracy);
          g1 = addScore finalAccuracy g
      in if SustainProgress note1 > 0.8
         then (note1, g1\<lparr>score := score g1 + int32_of_float (50 * SustainProgress note1)\<rparr>)
         else (note1, g1))"

fun handleKeyRelease_loop :: "int \<Rightarrow> GameNote list \<Rightarrow> Game \<Rightarrow> GameNote list \<times> Game" where
  "handleKeyRelease_loop laneIndex [] g = ([], g)"
| "handleKeyRelease_loop laneIndex (note # rest) g =
     (if \<not> IsActive note then
        (case handleKeyRelease_loop laneIndex rest g of (rest', g') \<Rightarrow> (note # rest', g'))
      else if Lane note \<noteq> laneIndex then
        (case handleKeyRelease_loop laneIndex rest g of (rest', g') \<Rightarrow> (note # rest', g'))
      else if \<not> IsPressed note then
        (case handleKeyRelease_loop laneIndex rest g of (rest', g') \<Rightarrow> (note # rest', g'))
      else if IsHit note then
        (case handleKeyRelease_loop laneIndex rest g of (rest', g') \<Rightarrow> (note # rest', g'))
      else
        (case handleKeyRelease_note note g of (note', g') \<Rightarrow> (note' # rest, g')))"

definition handleKeyRelease :: "int \<Rightarrow> Game \<Rightarrow> Game" where
  "handleKeyRelease laneIndex g =
     (case handleKeyRelease_loop laneIndex (gameNotes g) g of
        (ns, g') \<Rightarrow> g'\<lparr>gameNotes := ns\<rparr>)"

subsection \<open>Audio manager\<close>

definition StartPlayback :: "real \<Rightarrow> AudioManager \<Rightarrow> error option \<times> AudioManager" where
  "StartPlayback now am =
     (if \<not> isInitialized am then (Some AudioNotReady, am)
      else case musicStream am of
        None \<Rightarrow> (Some AudioNotReady, am)
      | Some ms \<Rightarrow>
          if isPlaying am then (None, am)
          else (None, am\<lparr>startTime_am := Some now,
                          musicStream := Some (ms\<lparr>startTime_ms := Some now, currentSample := 0\<rparr>),
                          isPlaying := True\<rparr>))"

definition StopPlayback :: "AudioManager \<Rightarrow> AudioManager" where
  "StopPlayback am = (if isPlaying am then am\<lparr>isPlaying := False\<rparr> else am)"

definition Update_am :: "real \<Rightarrow> AudioManager \<Rightarrow> AudioManager" where
  "Update_am now am =
     (if isPlaying am then
        (case startTime_am am of
           None \<Rightarrow> am
         | Some t0 \<Rightarrow> am\<lparr>currentTime_am := now - t0\<rparr>)
      else am)"

definition LoadMIDITrack_am :: "MIDINote list \<Rightarrow> AudioManager \<Rightarrow> error option \<times> AudioManager" where
  "LoadMIDITrack_am ns am =
     (if \<not> isInitialized am then (Some AudioNotInitialized, am)
      else (None, am\<lparr>musicStream :=
              Some \<lparr>notes_ms = ns, currentSample = 0, startTime_ms = None\<rparr>\<rparr>))"

subsection \<open>Session control and the frame update\<close>

fun StartGame_loop :: "GameNote list \<Rightarrow> GameNote list" where
  "StartGame_loop [] = []"
| "StartGame_loop (note # rest) = note\<lparr>IsActive := True, IsHit := False\<rparr> # StartGame_loop rest"

definition StartGame :: "real \<Rightarrow> Game \<Rightarrow> Game" where
  "StartGame now g =
     (let g1 = g\<lparr>state := StatePlaying, gameStartTime := now, currentTime := 0,
                  score := 0, combo := 0, maxCombo := 0, perfectHits := 0, goodHits := 0,
                  okHits := 0, missedHits := 0\<rparr>;
          g2 = g1\<lparr>gameNotes := StartGame_loop (gameNotes g1)\<rparr>
      in case audioManager g2 of
           None \<Rightarrow> g2
         | Some am \<Rightarrow> g2\<lparr>audioManager := Some (snd (StartPlayback now am))\<rparr>)"

definition EndGame :: "Game \<Rightarrow> Game" where
  "EndGame g =
     (let g1 = g\<lparr>state := StateGameOver\<rparr>
      in case audioManager g1 of
           None \<Rightarrow> g1
         | Some am \<Rightarrow> g1\<lparr>audioManager := Some (StopPlayback am)\<rparr>)"

definition checkAllNotesProcessed :: "Game \<Rightarrow> Game" where
  "checkAllNotesProcessed g =
     (let processedNotes = perfectHits g + goodHits g + okHits g + missedHits g
      in if processedNotes \<ge> totalNotes g then EndGame g else g)"

definition updateInput_lane :: "Keyboard \<Rightarrow> nat \<Rightarrow> Game \<Rightarrow> Game" where
  "updateInput_lane kb i g =
     (let code = KeyCode (lanes g i);
          g1 = g\<lparr>lanes := (lanes g)(i := (lanes g i)\<lparr>IsPressed_lane := IsKeyDown kb code\<rparr>)\<rparr>;
          g2 = (if IsKeyPressed kb code then handleKeyPress (int i) g1 else g1)
      in if IsKeyReleased kb code then handleKeyRelease (int i) g2 else g2)"

definition updateInput :: "Keyboard \<Rightarrow> Game \<Rightarrow> Game" where
  "updateInput kb g = updateInput_lane kb 2 (updateInput_lane kb 1 (updateInput_lane kb 0 g))"

text \<open>
  \<open>Update\<close> reads the clock (\<open>now\<close>) and the keyboard (\<open>kb\<close>); its parameter
  \<open>deltaTime\<close> is unused by the source and left out. The game and its audio manager
  each read the clock in \<open>StartGame\<close> and in \<open>Update\<close>, one just after the other: both
  reads are the one value \<open>now\<close>.
\<close>

definition Update :: "real \<Rightarrow> Keyboard \<Rightarrow> Game \<Rightarrow> error + Game" where
  "Update now kb g =
     (if state g \<noteq> StatePlaying then Inr g
      else
        let g1 = g\<lparr>currentTime := now - gameStartTime g\<rparr>;
            g2 = (case audioManager g1 of
                    None \<Rightarrow> g1
                  | Some am \<Rightarrow> g1\<lparr>audioManager := Some (Update_am now am)\<rparr>)
        in if currentTime g2 > songDuration g2 then Inr (EndGame g2)
           else
             (case updateSustainedNotes (updateNotes (updateInput kb g2)) of
                Inl e \<Rightarrow> Inl e
              | Inr g3 \<Rightarrow> Inr (checkAllNotesProcessed (checkMissedNotes g3))))"

section \<open>Chart parser\<close>

record SimpleMIDIParser =
  data :: "8 word list"
  position :: nat
  ticksPerBeat :: int
  tempo :: int

text \<open>
  \<open>readVariableLength\<close>: the loop \<open>for i := 0; i < 4; i++\<close> is a recursion on the number
  of rounds left. The parser is returned with its position advanced, also when the data
  ends early (the Go function then returns the value 0 and an error).
\<close>

fun readVariableLength_loop ::
  "nat \<Rightarrow> int \<Rightarrow> SimpleMIDIParser \<Rightarrow> (error + int) \<times> SimpleMIDIParser"
where
  "readVariableLength_loop 0 v p = (Inr v, p)"
| "readVariableLength_loop (Suc k) v p =
     (if position p \<ge> length (data p) then (Inl UnexpectedEndOfData, p)
      else
        let b = data p ! position p;
            p1 = p\<lparr>position := position p + 1\<rparr>;
            v1 = (push_bit 7 v) OR uint (b AND 0x7F)
        in if b AND 0x80 = 0 then (Inr v1, p1)
           else readVariableLength_loop k v1 p1)"

definition readVariableLength :: "SimpleMIDIParser \<Rightarrow> (error + int) \<times> SimpleMIDIParser" where
  "readVariableLength p = readVariableLength_loop 4 0 p"

definition ticksToSeconds :: "SimpleMIDIParser \<Rightarrow> int \<Rightarrow> real" where
  "ticksToSeconds p ticks =
     (let secondsPerTick = real_of_int (tempo p) / (real_of_int (ticksPerBeat p) * 1000000)
      in real_of_int ticks * secondsPerTick)"

section \<open>Guitar track extraction and lane mapping\<close>

text \<open>
  \<open>parseMIDIFile\<close> calls \<open>parser.ParseFile\<close> on the file; what that call returns (the
  notes of the file, or an error) is the parameter \<open>parsed\<close>.
\<close>

fun guitarNotes_loop :: "MIDINote list \<Rightarrow> MIDINote list \<Rightarrow> MIDINote list" where
  "guitarNotes_loop [] guitarNotes = guitarNotes"
| "guitarNotes_loop (note # rest) guitarNotes =
     (if Pitch note \<ge> 40 \<and> Pitch note \<le> 84
      then guitarNotes_loop rest (guitarNotes @ [note])
      else guitarNotes_loop rest guitarNotes)"

definition parseMIDIFile ::
  "(error + MIDINote list) \<Rightarrow> MIDIProcessor \<Rightarrow> error option \<times> MIDIProcessor"
where
  "parseMIDIFile parsed mp =
     (case parsed of
        Inl e \<Rightarrow> (Some ParseFailed, mp)
      | Inr allNotes \<Rightarrow>
          let guitarNotes = guitarNotes_loop allNotes [];
              track = \<lparr>Name = ''Guitar'', Channel = 0, Instrument = 25,
                       Notes = guitarNotes, IsGuitar = True\<rparr>
          in (None, mp\<lparr>tracks := [track]\<rparr>))"

definition isGuitarTrack :: "MIDITrack \<Rightarrow> bool" where
  "isGuitarTrack track =
     (if Name track = ''Guitar'' \<or> Name track = ''Lead Guitar'' \<or> Name track = ''Rhythm Guitar''
      then True
      else if Instrument track \<ge> 25 \<and> Instrument track \<le> 32 then True
      else length (Notes track) > 0)"

definition assignLanes_note :: "MIDINote \<Rightarrow> MIDINote" where
  "assignLanes_note note =
     (if Pitch note < 60 then note\<lparr>Lane_midi := 0\<rparr>
      else if Pitch note \<le> 72 then note\<lparr>Lane_midi := 1\<rparr>
      else note\<lparr>Lane_midi := 2\<rparr>)"

definition assignLanes :: "MIDITrack \<Rightarrow> MIDITrack" where
  "assignLanes track = track\<lparr>Notes := map assignLanes_note (Notes track)\<rparr>"

text \<open>
  \<open>FindGuitarTrack\<close> returns a pointer to the first track that \<open>isGuitarTrack\<close> accepts,
  after marking it and assigning its lanes in place: here the track as it is after that,
  with the processor holding the same track at the same index.
\<close>

fun FindGuitarTrack_loop :: "MIDITrack list \<Rightarrow> nat \<Rightarrow> (nat \<times> MIDITrack) option" where
  "FindGuitarTrack_loop [] i = None"
| "FindGuitarTrack_loop (track # rest) i =
     (if isGuitarTrack track then Some (i, assignLanes (track\<lparr>IsGuitar := True\<rparr>))
      else FindGuitarTrack_loop rest (Suc i))"

definition FindGuitarTrack :: "MIDIProcessor \<Rightarrow> (error + MIDITrack) \<times> MIDIProcessor" where
  "FindGuitarTrack mp =
     (if length (tracks mp) = 0 then (Inl NoTracksLoaded, mp)
      else case FindGuitarTrack_loop (tracks mp) 0 of
             None \<Rightarrow> (Inl NoGuitarTrackFound, mp)
           | Some (i, track) \<Rightarrow>
               (Inr track, mp\<lparr>tracks := (tracks mp)[i := track], guitarTrack := Some i\<rparr>))"

section \<open>Chart-to-session adapter\<close>

fun earliestNoteTime_loop :: "MIDINote list \<Rightarrow> real \<Rightarrow> real" where
  "earliestNoteTime_loop [] earliestNoteTime = earliestNoteTime"
| "earliestNoteTime_loop (midiNote # rest) earliestNoteTime =
     (if StartTime_midi midiNote < earliestNoteTime
      then earliestNoteTime_loop rest (StartTime_midi midiNote)
      else earliestNoteTime_loop rest earliestNoteTime)"

text \<open>
  The fields a Go composite literal leaves out take their zero values (\<open>Miss\<close> is the
  zero of \<open>HitAccuracy\<close>). The variable \<open>maxTime\<close> of the source is computed and never
  read; it is left out.
\<close>

fun gameNotes_loop :: "real \<Rightarrow> MIDINote list \<Rightarrow> GameNote list \<Rightarrow> GameNote list" where
  "gameNotes_loop earliestNoteTime [] acc = acc"
| "gameNotes_loop earliestNoteTime (midiNote # rest) acc =
     (let adjustedStartTime = StartTime_midi midiNote - earliestNoteTime + 2.0
      in if adjustedStartTime > GAME_DURATION then gameNotes_loop earliestNoteTime rest acc
         else
           let adjustedDuration = Duration_midi midiNote;
               noteEndTime = adjustedStartTime + adjustedDuration;
               adjustedDuration = (if noteEndTime > GAME_DURATION
                                   then GAME_DURATION - adjustedStartTime
                                   else adjustedDuration);
               gameNote = \<lparr>StartTime = adjustedStartTime, Duration = adjustedDuration,
                           Lane = Lane_midi midiNote, Y = 0, Width = LANE_WIDTH - 20,
                           Height = NOTE_HEIGHT, IsActive = True, IsHit = False,
                           HitAccuracy = Miss, IsPressed = False, PressStartTime = 0,
                           IsBeingHeld = False, SustainProgress = 0\<rparr>
           in gameNotes_loop earliestNoteTime rest (acc @ [gameNote]))"

fun audioNotes_loop :: "real \<Rightarrow> MIDINote list \<Rightarrow> MIDINote list \<Rightarrow> MIDINote list" where
  "audioNotes_loop earliestNoteTime [] acc = acc"
| "audioNotes_loop earliestNoteTime (midiNote # rest) acc =
     (let adjustedNote = midiNote\<lparr>StartTime_midi := StartTime_midi midiNote - earliestNoteTime + 2.0\<rparr>
      in if StartTime_midi adjustedNote \<le> GAME_DURATION then
           let adjustedNote =
                 (if StartTime_midi adjustedNote + Duration_midi adjustedNote > GAME_DURATION
                  then adjustedNote\<lparr>Duration_midi := GAME_DURATION - StartTime_midi adjustedNote\<rparr>
                  else adjustedNote)
           in audioNotes_loop earliestNoteTime rest (acc @ [adjustedNote])
         else audioNotes_loop earliestNoteTime rest acc)"

text \<open>
  \<open>LoadMIDITrack\<close> of the game. The pointer \<open>g.midiProcessor\<close> is not kept in the model;
  the processor as \<open>FindGuitarTrack\<close> leaves it is returned beside the game.
\<close>

definition LoadMIDITrack :: "MIDIProcessor \<Rightarrow> Game \<Rightarrow> error + Game \<times> MIDIProcessor" where
  "LoadMIDITrack midiProcessor g =
     (case FindGuitarTrack midiProcessor of
        (Inl err, mp) \<Rightarrow> Inl err
      | (Inr guitarTrack', mp) \<Rightarrow>
          (let earliestNoteTime = earliestNoteTime_loop (Notes guitarTrack') 999999;
               g1 = g\<lparr>gameNotes := gameNotes_loop earliestNoteTime (Notes guitarTrack') []\<rparr>;
               g2 = g1\<lparr>songDuration := GAME_DURATION,
                       totalNotes := int (length (gameNotes g1))\<rparr>
           in (case audioManager g2 of
                 None \<Rightarrow> Inr (g2, mp)
               | Some am \<Rightarrow>
                   (let audioNotes = audioNotes_loop earliestNoteTime (Notes guitarTrack') []
                    in Inr (g2\<lparr>audioManager := Some (snd (LoadMIDITrack_am audioNotes am))\<rparr>,
                            mp)))))"

section \<open>Audio synthesis\<close>

definition midiToFrequency :: "int \<Rightarrow> real" where
  "midiToFrequency midiNote = 440 * 2 powr (real_of_int (midiNote - 69) / 12)"

text \<open>
  One round of the loop of \<open>synthesizeAtTime\<close> over the notes; the state of the loop is
  \<open>(left, right, activeNoteCount)\<close>.
\<close>

definition synthesizeAtTime_note ::
  "real \<Rightarrow> MIDINote \<Rightarrow> real \<times> real \<times> int \<Rightarrow> real \<times> real \<times> int"
where
  "synthesizeAtTime_note currentTime' note s =
     (case s of (left, right, activeNoteCount) \<Rightarrow>
        let noteStart = StartTime_midi note;
            noteEnd = StartTime_midi note + Duration_midi note
        in if currentTime' \<ge> noteStart \<and> currentTime' < noteEnd then
             let activeNoteCount = activeNoteCount + 1;
                 frequency = midiToFrequency (Pitch note);
                 phase = 2 * pi * frequency * currentTime';
                 amplitude = 0.2;
                 fadeTime = 0.05;
                 envelope = (if currentTime' - noteStart < fadeTime
                             then (currentTime' - noteStart) / fadeTime
                             else if noteEnd - currentTime' < fadeTime
                             then (noteEnd - currentTime') / fadeTime
                             else 1);
                 sample = amplitude * envelope * sin phase;
                 sample = (if activeNoteCount > 1
                           then sample / real_of_int activeNoteCount else sample)
             in if Lane_midi note = 0 then (left + sample * 0.8, right + sample * 0.4, activeNoteCount)
                else if Lane_midi note = 1 then (left + sample * 0.6, right + sample * 0.6, activeNoteCount)
                else if Lane_midi note = 2 then (left + sample * 0.4, right + sample * 0.8, activeNoteCount)
                else (left + sample * 0.5, right + sample * 0.5, activeNoteCount)
           else (left, right, activeNoteCount))"

fun synthesizeAtTime_loop ::
  "real \<Rightarrow> MIDINote list \<Rightarrow> real \<times> real \<times> int \<Rightarrow> real \<times> real \<times> int"
where
  "synthesizeAtTime_loop currentTime' [] s = s"
| "synthesizeAtTime_loop currentTime' (note # rest) s =
     synthesizeAtTime_loop currentTime' rest (synthesizeAtTime_note currentTime' note s)"

definition clamp_sample :: "real \<Rightarrow> real" where
  "clamp_sample x = (if x > 1 then 1 else if x < - 1 then - 1 else x)"

definition synthesizeAtTime :: "MIDIAudioStreamer \<Rightarrow> real \<Rightarrow> real \<times> real" where
  "synthesizeAtTime ms currentTime' =
     (let s0 = (if currentTime' \<ge> 0 \<and> currentTime' < 2
                then let testFreq = 440;
                         testPhase = 2 * pi * testFreq * currentTime';
                         testSample = 0.2 * sin testPhase
                     in (testSample, testSample, 1)
                else (0, 0, 0))
      in case synthesizeAtTime_loop currentTime' (notes_ms ms) s0 of
           (left, right, activeNoteCount) \<Rightarrow> (clamp_sample left, clamp_sample right))"

section \<open>Construction of a game\<close>

text \<open>
  \<open>NewGame\<close> creates the audio manager and initialises it; whether \<open>speaker.Init\<close>
  succeeded is the parameter \<open>speakerOk\<close>. The key codes are those of raylib
  (\<open>KeyA = 65\<close>, \<open>KeyW = 87\<close>, \<open>KeyD = 68\<close>).
\<close>

definition NewAudioManager :: AudioManager where
  "NewAudioManager = \<lparr>isInitialized = False, isPlaying = False, musicStream = None,
                       currentTime_am = 0, startTime_am = None\<rparr>"

definition Initialize :: "bool \<Rightarrow> AudioManager \<Rightarrow> error option \<times> AudioManager" where
  "Initialize speakerOk am =
     (if \<not> speakerOk then (Some AudioNotInitialized, am)
      else (None, am\<lparr>isInitialized := True\<rparr>))"

definition NewGame :: "bool \<Rightarrow> Game" where
  "NewGame speakerOk =
     \<lparr>screenWidth = 800, screenHeight = 600,
      audioManager = Some (snd (Initialize speakerOk NewAudioManager)),
      gameNotes = [], score = 0, combo = 0, maxCombo = 0, state = StateMenu,
      gameStartTime = 0, currentTime = 0, songDuration = 0, hitLine = 500,
      lanes = (\<lambda>i. if i = 0 then \<lparr>X_lane = 100, Width_lane = LANE_WIDTH, IsPressed_lane = False, KeyCode = 65\<rparr>
                    else if i = 1 then \<lparr>X_lane = 300, Width_lane = LANE_WIDTH, IsPressed_lane = False, KeyCode = 87\<rparr>
                    else if i = 2 then \<lparr>X_lane = 500, Width_lane = LANE_WIDTH, IsPressed_lane = False, KeyCode = 68\<rparr>
                    else \<lparr>X_lane = 0, Width_lane = 0, IsPressed_lane = False, KeyCode = 0\<rparr>),
      perfectHits = 0, goodHits = 0, okHits = 0, missedHits = 0, totalNotes = 0\<rparr>"

section \<open>Notions used to state the properties\<close>

text \<open>
  The words of the specification for the variable-length integers: a byte whose most
  significant bit is 1 announces that more bytes follow; the value is the big-endian
  number whose base-128 digits are the low seven bits of the bytes read.
\<close>

definition continuation_bit :: "8 word \<Rightarrow> bool" where
  "continuation_bit b = (b AND 0x80 \<noteq> 0)"

definition base128 :: "int \<Rightarrow> 8 word list \<Rightarrow> int" where
  "base128 v bs = foldl (\<lambda>acc b. 128 * acc + uint (b AND 0x7F)) v bs"

text \<open>The bytes a parser consumed between two of its states.\<close>

definition bytes_read :: "SimpleMIDIParser \<Rightarrow> SimpleMIDIParser \<Rightarrow> 8 word list" where
  "bytes_read p p' = take (position p' - position p) (drop (position p) (data p))"

text \<open>
  The note that a key release in a lane resolves is the first one that is active, in that
  lane, pressed and not hit. The tier table of the specification: a judgment one tier
  down, with OK and Miss left as they are. The release judgment of a note is the judgment
  of the time between now and the end of the note.
\<close>

definition held_in_lane :: "int \<Rightarrow> GameNote \<Rightarrow> bool" where
  "held_in_lane laneIndex note =
     (IsActive note \<and> Lane note = laneIndex \<and> IsPressed note \<and> \<not> IsHit note)"

fun downgrade_one_tier :: "HitAccuracy \<Rightarrow> HitAccuracy" where
  "downgrade_one_tier Perfect = Good"
| "downgrade_one_tier Good = OK"
| "downgrade_one_tier OK = OK"
| "downgrade_one_tier Miss = Miss"

definition release_judgment :: "Game \<Rightarrow> GameNote \<Rightarrow> HitAccuracy" where
  "release_judgment g note = calculateAccuracy (currentTime g - (StartTime note + Duration note))"

text \<open>
  A note that is hit stays hit and keeps its judgment (\<open>hit_kept\<close>, from a note to what
  becomes of it). \<open>drop_hit\<close> removes the hit notes from the list of a game and leaves
  everything else.
\<close>

definition hit_kept :: "GameNote \<Rightarrow> GameNote \<Rightarrow> bool" where
  "hit_kept n n' = (IsHit n \<longrightarrow> IsHit n' \<and> HitAccuracy n' = HitAccuracy n)"

definition drop_hit :: "Game \<Rightarrow> Game" where
  "drop_hit g = g\<lparr>gameNotes := filter (\<lambda>n. \<not> IsHit n) (gameNotes g)\<rparr>"

text \<open>
  The words of the specification for the adapter: the adjusted start of a note, given the
  earliest start time and the lead-in of 2 seconds, and the session note made of a raw
  note, with its duration clipped at the session length of 30 seconds.
\<close>

definition adjustedStart :: "real \<Rightarrow> MIDINote \<Rightarrow> real" where
  "adjustedStart earliest midiNote = StartTime_midi midiNote - earliest + 2"

definition session_note :: "real \<Rightarrow> MIDINote \<Rightarrow> GameNote" where
  "session_note earliest midiNote =
     \<lparr>StartTime = adjustedStart earliest midiNote,
      Duration = (if adjustedStart earliest midiNote + Duration_midi midiNote > 30
                  then 30 - adjustedStart earliest midiNote else Duration_midi midiNote),
      Lane = Lane_midi midiNote, Y = 0, Width = 180, Height = 40, IsActive = True,
      IsHit = False, HitAccuracy = Miss, IsPressed = False, PressStartTime = 0,
      IsBeingHeld = False, SustainProgress = 0\<rparr>"

section \<open>Example inputs\<close>

text \<open>
  A chart whose only note starts one million seconds in: a file with one tick per beat,
  the default tempo of 500000 microseconds per beat and a delta time of 2000000 ticks
  before its first Note-On gives this start time.
\<close>

definition late_chart :: MIDIProcessor where
  "late_chart =
     \<lparr>filePath = ''assets/test.mid'',
      tracks = [\<lparr>Name = ''Guitar'', Channel = 0, Instrument = 25,
                 Notes = [\<lparr>Pitch = 60, Velocity = 80, StartTime_midi = 1000000,
                           Duration_midi = 0.5, Lane_midi = 0\<rparr>],
                 IsGuitar = True\<rparr>],
      guitarTrack = None\<rparr>"

text \<open>Two notes of pitch 69 (440 Hz) in the middle lane, both sounding from 2.0s to 3.0s.\<close>

definition two_notes :: MIDIAudioStreamer where
  "two_notes =
     \<lparr>notes_ms = [\<lparr>Pitch = 69, Velocity = 80, StartTime_midi = 2, Duration_midi = 1, Lane_midi = 1\<rparr>,
                  \<lparr>Pitch = 69, Velocity = 80, StartTime_midi = 2, Duration_midi = 1, Lane_midi = 1\<rparr>],
      currentSample = 0, startTime_ms = Some 0\<rparr>"

text \<open>
  The frames of a session: \<open>main\<close> calls \<open>game.Update\<close> once per frame; a frame is the
  wall-clock time at which it runs and the state of the keyboard.
\<close>

fun run_frames :: "(real \<times> Keyboard) list \<Rightarrow> Game \<Rightarrow> error + Game" where
  "run_frames [] g = Inr g"
| "run_frames ((now, kb) # rest) g =
     (case Update now kb g of Inl e \<Rightarrow> Inl e | Inr g' \<Rightarrow> run_frames rest g')"

text \<open>
  A chart with one note of pitch 50 (lane 0, key A) and duration \<open>d\<close>, and the game that
  \<open>LoadMIDITrack\<close> builds from it: the note starts at 2.0 seconds of the session.
\<close>

definition single_note_chart :: "real \<Rightarrow> MIDIProcessor" where
  "single_note_chart d =
     \<lparr>filePath = ''assets/test.mid'',
      tracks = [\<lparr>Name = ''Guitar'', Channel = 0, Instrument = 25,
                 Notes = [\<lparr>Pitch = 50, Velocity = 80, StartTime_midi = 1,
                           Duration_midi = d, Lane_midi = 0\<rparr>],
                 IsGuitar = True\<rparr>],
      guitarTrack = None\<rparr>"

definition single_note_game :: "real \<Rightarrow> Game" where
  "single_note_game d =
     (case LoadMIDITrack (single_note_chart d) (NewGame True) of
        Inr (g, mp) \<Rightarrow> g
      | Inl e \<Rightarrow> NewGame True)"

definition key_A_pressed :: Keyboard where
  "key_A_pressed = \<lparr>IsKeyDown = (\<lambda>c. c = 65), IsKeyPressed = (\<lambda>c. c = 65),
                     IsKeyReleased = (\<lambda>c. False)\<rparr>"

definition key_A_held :: Keyboard where
  "key_A_held = \<lparr>IsKeyDown = (\<lambda>c. c = 65), IsKeyPressed = (\<lambda>c. False),
                  IsKeyReleased = (\<lambda>c. False)\<rparr>"

definition key_A_released :: Keyboard where
  "key_A_released = \<lparr>IsKeyDown = (\<lambda>c. False), IsKeyPressed = (\<lambda>c. False),
                      IsKeyReleased = (\<lambda>c. c = 65)\<rparr>"

definition no_keys :: Keyboard where
  "no_keys = \<lparr>IsKeyDown = (\<lambda>c. False), IsKeyPressed = (\<lambda>c. False),
               IsKeyReleased = (\<lambda>c. False)\<rparr>"

text \<open>
  Two games in the middle of a frame, as the code reaches them. The first is the game as
  \<open>handleKeyRelease\<close> receives it for lane 0 in this history: a session of
  \<open>single_note_game (4/5)\<close> in which the key A goes down on the note at 2.0s and is
  still down at 2.7s (the sustain progress becomes 7/8 and the sweep resolves the note),
  then \<open>StartGame\<close> again at wall-clock time 200, and a frame at 1.0s of the new session
  in which the key A is released: \<open>Update\<close> has set the clock and \<open>updateInput\<close> the
  flag of lane 0. The second is the game as \<open>updateSustainedNotes\<close> receives it in the
  third frame of a session of \<open>single_note_game (2/5)\<close>: the key A goes down on the note at
  2.0s and is down at 2.15s and at 2.5s, past the end of the note at 2.4s.
\<close>

definition release_entry_game :: Game where
  "release_entry_game =
     (case run_frames [(102, key_A_pressed), (1027 / 10, key_A_held)]
             (StartGame 100 (single_note_game (4 / 5))) of
        Inl e \<Rightarrow> NewGame True
      | Inr g \<Rightarrow>
          (let gs = StartGame 200 g;
               g1 = gs\<lparr>currentTime := 201 - gameStartTime gs,
                       audioManager := map_option (Update_am 201) (audioManager gs)\<rparr>
           in g1\<lparr>lanes := (lanes g1)(0 := (lanes g1 0)\<lparr>IsPressed_lane := False\<rparr>)\<rparr>))"

definition auto_complete_entry_game :: Game where
  "auto_complete_entry_game =
     (case run_frames [(102, key_A_pressed), (2043 / 20, key_A_held)]
             (StartGame 100 (single_note_game (2 / 5))) of
        Inl e \<Rightarrow> NewGame True
      | Inr g \<Rightarrow>
          updateNotes (updateInput key_A_held
            (g\<lparr>currentTime := 205 / 2 - gameStartTime g,
               audioManager := map_option (Update_am (205 / 2)) (audioManager g)\<rparr>)))"

text \<open>
  A game in the Playing state, two seconds into a session started at wall-clock time 100:
  the first of its two notes of lane 0 (a short note at 2.0s) has just been hit Perfect,
  the second (a short note at 4.0s) is still to come.
\<close>

definition one_of_two_hit_game :: Game where
  "one_of_two_hit_game =
     (NewGame True)
       \<lparr>gameNotes := [\<lparr>StartTime = 2, Duration = 1 / 5, Lane = 0, Y = 500, Width = 180,
                        Height = 40, IsActive = True, IsHit = True, HitAccuracy = Perfect,
                        IsPressed = False, PressStartTime = 0, IsBeingHeld = False,
                        SustainProgress = 0\<rparr>,
                      \<lparr>StartTime = 4, Duration = 1 / 5, Lane = 0, Y = 100, Width = 180,
                        Height = 40, IsActive = True, IsHit = False, HitAccuracy = Miss,
                        IsPressed = False, PressStartTime = 0, IsBeingHeld = False,
                        SustainProgress = 0\<rparr>],
        score := 100, combo := 1, maxCombo := 1, perfectHits := 1,
        state := StatePlaying, gameStartTime := 100, currentTime := 2, songDuration := 30,
        totalNotes := 2\<rparr>"

section \<open>Verified properties\<close>

subsection \<open>Judgment thresholds\<close>

text \<open>
  Claim C5. For every timing difference \<open>t\<close>, \<open>calculateAccuracy\<close> returns Perfect
  exactly when \<open>|t| \<le> 0.05\<close>, Good exactly when \<open>0.05 < |t| \<le> 0.10\<close>, OK exactly when
  \<open>0.10 < |t| \<le> 0.15\<close>, and Miss exactly when \<open>|t| > 0.15\<close>. In particular 0.04 is
  Perfect, 0.09 is Good, 0.14 is OK, 0.20 is Miss, the boundary 0.05 is Perfect and 0.051
  is Good.
\<close>

theorem calculateAccuracy_thresholds:
  "(calculateAccuracy t = Perfect) = (\<bar>t\<bar> \<le> 0.05)
   \<and> (calculateAccuracy t = Good) = (0.05 < \<bar>t\<bar> \<and> \<bar>t\<bar> \<le> 0.10)
   \<and> (calculateAccuracy t = OK) = (0.10 < \<bar>t\<bar> \<and> \<bar>t\<bar> \<le> 0.15)
   \<and> (calculateAccuracy t = Miss) = (0.15 < \<bar>t\<bar>)
   \<and> calculateAccuracy 0.04 = Perfect
   \<and> calculateAccuracy 0.09 = Good
   \<and> calculateAccuracy 0.14 = OK
   \<and> calculateAccuracy 0.20 = Miss
   \<and> calculateAccuracy 0.05 = Perfect
   \<and> calculateAccuracy 0.051 = Good"
  by (auto simp: calculateAccuracy_def Let_def abs_if)

subsection \<open>Variable-length integers\<close>

lemma shift_or_add: "push_bit 7 (v::int) OR uint ((b::8 word) AND 0x7F) = 128 * v + uint (b AND 0x7F)"
proof -
  have m: "(0x7F :: 8 word) = mask 7" by (simp add: mask_eq_exp_minus_1)
  have "push_bit 7 v AND uint (b AND 0x7F) = 0"
    unfolding m by (rule bit_eqI) (auto simp: bit_simps)
  then have "push_bit 7 v + uint (b AND 0x7F) = push_bit 7 v OR uint (b AND 0x7F)"
    by (rule disjunctive_add_eq_or)
  then show ?thesis by (simp add: push_bit_eq_mult)
qed

lemma readVariableLength_loop_value:
  "readVariableLength_loop (Suc k) v p = (Inr v', p') \<Longrightarrow>
   position p < position p' \<and> position p' \<le> position p + Suc k \<and> position p' \<le> length (data p)
   \<and> data p' = data p \<and> ticksPerBeat p' = ticksPerBeat p \<and> tempo p' = tempo p
   \<and> list_all continuation_bit (butlast (bytes_read p p'))
   \<and> (position p' < position p + Suc k \<longrightarrow> \<not> continuation_bit (last (bytes_read p p')))
   \<and> v' = base128 v (bytes_read p p')"
proof (induction k arbitrary: v p)
  case 0
  then show ?case
    by (auto simp: Let_def shift_or_add bytes_read_def base128_def continuation_bit_def take_Suc_conv_app_nth
        split: if_splits)
next
  case (Suc k)
  let ?b = "data p ! position p"
  let ?p1 = "p\<lparr>position := position p + 1\<rparr>"
  let ?v1 = "128 * v + uint (?b AND 0x7F)"
  from Suc.prems have inb: "position p < length (data p)"
    by (auto split: if_splits)
  show ?case
  proof (cases "?b AND 0x80 = 0")
    case True
    with Suc.prems inb have "v' = ?v1" "p' = ?p1"
      by (auto simp: Let_def shift_or_add)
    with inb True show ?thesis
      by (auto simp: bytes_read_def base128_def continuation_bit_def take_Suc_conv_app_nth)
  next
    case False
    with Suc.prems inb have rec: "readVariableLength_loop (Suc k) ?v1 ?p1 = (Inr v', p')"
      by (auto simp: Let_def shift_or_add)
    note ih = Suc.IH [OF rec]
    from ih have lt: "position p + 1 < position p'" by simp
    have br: "bytes_read p p' = ?b # bytes_read ?p1 p'"
    proof -
      from lt have m: "position p' - position p = Suc (position p' - (position p + 1))"
        by arith
      from inb have "drop (position p) (data p) = ?b # drop (Suc (position p)) (data p)"
        by (simp add: Cons_nth_drop_Suc)
      with m show ?thesis by (simp add: bytes_read_def)
    qed
    from ih lt have ne: "bytes_read ?p1 p' \<noteq> []"
      by (auto simp: bytes_read_def)
    from ih False ne show ?thesis
      unfolding br by (auto simp: base128_def continuation_bit_def)
  qed
qed

lemma readVariableLength_loop_error:
  "readVariableLength_loop k v p = (Inl e, p') \<Longrightarrow>
   e = UnexpectedEndOfData \<and> length (data p) \<le> position p' \<and> position p \<le> position p'
   \<and> position p' < position p + k \<and> data p' = data p
   \<and> (position p \<le> length (data p) \<longrightarrow> position p' = length (data p))
   \<and> list_all continuation_bit (bytes_read p p')"
proof (induction k arbitrary: v p)
  case 0
  then show ?case by simp
next
  case (Suc k)
  let ?b = "data p ! position p"
  let ?p1 = "p\<lparr>position := position p + 1\<rparr>"
  let ?v1 = "128 * v + uint (?b AND 0x7F)"
  show ?case
  proof (cases "position p \<ge> length (data p)")
    case True
    with Suc.prems show ?thesis by (auto simp: bytes_read_def)
  next
    case inb: False
    with Suc.prems have cont: "?b AND 0x80 \<noteq> 0"
      by (auto simp: Let_def split: if_splits)
    with Suc.prems inb have rec: "readVariableLength_loop k ?v1 ?p1 = (Inl e, p')"
      by (auto simp: Let_def shift_or_add)
    note ih = Suc.IH [OF rec]
    from ih have lt: "position p + 1 \<le> position p'" by simp
    have br: "bytes_read p p' = ?b # bytes_read ?p1 p'"
    proof -
      from lt have m: "position p' - position p = Suc (position p' - (position p + 1))"
        by arith
      from inb have "drop (position p) (data p) = ?b # drop (Suc (position p)) (data p)"
        by (simp add: Cons_nth_drop_Suc)
      with m show ?thesis by (simp add: bytes_read_def)
    qed
    from ih cont inb show ?thesis
      unfolding br by (auto simp: continuation_bit_def)
  qed
qed


lemma readVariableLength_loop_numeral:
  "readVariableLength_loop (numeral k) v p =
     (if position p \<ge> length (data p) then (Inl UnexpectedEndOfData, p)
      else if data p ! position p AND 0x80 = 0
           then (Inr (push_bit 7 v OR uint (data p ! position p AND 0x7F)),
                 p\<lparr>position := position p + 1\<rparr>)
           else readVariableLength_loop (pred_numeral k)
                  (push_bit 7 v OR uint (data p ! position p AND 0x7F))
                  (p\<lparr>position := position p + 1\<rparr>))"
  by (simp add: numeral_eq_Suc Let_def)

lemma readVariableLength_general:
  assumes "readVariableLength p = (r, p')"
  shows "data p' = data p \<and> position p \<le> position p' \<and> position p' \<le> position p + 4
   \<and> (case r of
        Inr v \<Rightarrow>
          position p < position p' \<and> position p' \<le> length (data p)
          \<and> list_all continuation_bit (butlast (bytes_read p p'))
          \<and> (position p' < position p + 4 \<longrightarrow> \<not> continuation_bit (last (bytes_read p p')))
          \<and> v = base128 0 (bytes_read p p')
      | Inl e \<Rightarrow>
          length (data p) \<le> position p' \<and> position p' < position p + 4
          \<and> list_all continuation_bit (bytes_read p p'))"
proof (cases r)
  case (Inl e)
  with assms readVariableLength_loop_error [of 4 0 p e p'] show ?thesis
    by (simp add: readVariableLength_def)
next
  case (Inr v)
  with assms readVariableLength_loop_value [of 3 0 p v p'] show ?thesis
    by (simp add: readVariableLength_def numeral_eq_Suc)
qed

text \<open>
  Claim C7. \<open>readVariableLength\<close> reads at most four bytes from the current position.
  When it returns a value, it has read at least one byte, every byte before the last one
  read has its most significant bit set, the last one has it clear unless four bytes were
  read, and the value is the big-endian base-128 number of the low seven bits of the bytes
  read. When it fails, the data ended after fewer than four bytes, all of them with the
  most significant bit set. In particular \<open>[0x7F]\<close> decodes to 127, \<open>[0x81, 0x00]\<close> to 128
  and \<open>[0xFF, 0x7F]\<close> to 16383.
\<close>

theorem readVariableLength_decodes:
  "(readVariableLength p = (r, p') \<longrightarrow>
      data p' = data p \<and> position p \<le> position p' \<and> position p' \<le> position p + 4
      \<and> (case r of
           Inr v \<Rightarrow>
             position p < position p' \<and> position p' \<le> length (data p)
             \<and> list_all continuation_bit (butlast (bytes_read p p'))
             \<and> (position p' < position p + 4 \<longrightarrow> \<not> continuation_bit (last (bytes_read p p')))
             \<and> v = base128 0 (bytes_read p p')
         | Inl e \<Rightarrow>
             length (data p) \<le> position p' \<and> position p' < position p + 4
             \<and> list_all continuation_bit (bytes_read p p')))
   \<and> fst (readVariableLength \<lparr>data = [0x7F], position = 0, ticksPerBeat = tb, tempo = tp\<rparr>)
       = Inr 127
   \<and> fst (readVariableLength \<lparr>data = [0x81, 0x00], position = 0, ticksPerBeat = tb, tempo = tp\<rparr>)
       = Inr 128
   \<and> fst (readVariableLength \<lparr>data = [0xFF, 0x7F], position = 0, ticksPerBeat = tb, tempo = tp\<rparr>)
       = Inr 16383"
proof -
  have ex: "fst (readVariableLength \<lparr>data = [0x7F], position = 0, ticksPerBeat = tb, tempo = tp\<rparr>)
       = Inr 127"
    "fst (readVariableLength \<lparr>data = [0x81, 0x00], position = 0, ticksPerBeat = tb, tempo = tp\<rparr>)
       = Inr 128"
    "fst (readVariableLength \<lparr>data = [0xFF, 0x7F], position = 0, ticksPerBeat = tb, tempo = tp\<rparr>)
       = Inr 16383"
    by (simp_all add: readVariableLength_def readVariableLength_loop_numeral)
  from readVariableLength_general [of p r p'] ex show ?thesis
    by blast
qed

theorem readVariableLength_decodes_witness:
  "readVariableLength \<lparr>data = [0x12, 0xFF, 0x7F, 0x34], position = 1, ticksPerBeat = 480, tempo = 500000\<rparr>
     = (Inr 16383, \<lparr>data = [0x12, 0xFF, 0x7F, 0x34], position = 3, ticksPerBeat = 480, tempo = 500000\<rparr>)
   \<and> bytes_read \<lparr>data = [0x12, 0xFF, 0x7F, 0x34], position = 1, ticksPerBeat = 480, tempo = 500000\<rparr>
        \<lparr>data = [0x12, 0xFF, 0x7F, 0x34], position = 3, ticksPerBeat = 480, tempo = 500000\<rparr>
      = [0xFF, 0x7F]
   \<and> base128 0 [0xFF, 0x7F] = 16383
   \<and> continuation_bit 0xFF \<and> \<not> continuation_bit 0x7F"
proof -
  let ?p = "\<lparr>data = [0x12, 0xFF, 0x7F, 0x34 :: 8 word], position = 1, ticksPerBeat = 480, tempo = 500000\<rparr>"
  let ?p' = "\<lparr>data = [0x12, 0xFF, 0x7F, 0x34 :: 8 word], position = 3, ticksPerBeat = 480, tempo = 500000\<rparr>"
  have run: "readVariableLength ?p = (Inr 16383, ?p')"
    by (simp add: readVariableLength_def readVariableLength_loop_numeral)
  have br: "bytes_read ?p ?p' = [0xFF, 0x7F]"
    by (simp add: bytes_read_def)
  from readVariableLength_decodes [of ?p "Inr 16383" ?p'] run br show ?thesis
    by (simp add: continuation_bit_def)
qed

subsection \<open>Guitar range filter\<close>

lemma guitarNotes_loop_filter:
  "guitarNotes_loop allNotes acc
     = acc @ filter (\<lambda>note. 40 \<le> Pitch note \<and> Pitch note \<le> 84) allNotes"
  by (induction allNotes arbitrary: acc) auto

text \<open>
  Claim C10. After a successful parse, \<open>parseMIDIFile\<close> leaves one track whose notes are
  exactly the parsed notes with pitch in \<open>[40, 84]\<close>, in their order; this is the track
  \<open>FindGuitarTrack\<close> hands on, with the lanes assigned, to the session adapter. Every
  parsed note with pitch below 40 or above 84 is dropped.
\<close>

theorem parseMIDIFile_keeps_guitar_range:
  "parseMIDIFile (Inr allNotes) mp =
     (None, mp\<lparr>tracks := [\<lparr>Name = ''Guitar'', Channel = 0, Instrument = 25,
                              Notes = filter (\<lambda>note. 40 \<le> Pitch note \<and> Pitch note \<le> 84) allNotes,
                              IsGuitar = True\<rparr>]\<rparr>)
   \<and> fst (FindGuitarTrack (snd (parseMIDIFile (Inr allNotes) mp))) =
       Inr \<lparr>Name = ''Guitar'', Channel = 0, Instrument = 25,
            Notes = map assignLanes_note
                      (filter (\<lambda>note. 40 \<le> Pitch note \<and> Pitch note \<le> 84) allNotes),
            IsGuitar = True\<rparr>
   \<and> set (filter (\<lambda>note. 40 \<le> Pitch note \<and> Pitch note \<le> 84) allNotes)
       = {note. note \<in> set allNotes \<and> 40 \<le> Pitch note \<and> Pitch note \<le> 84}"
  by (auto simp: parseMIDIFile_def guitarNotes_loop_filter FindGuitarTrack_def isGuitarTrack_def
      assignLanes_def Let_def)

subsection \<open>Chart-to-session adapter\<close>

lemma earliestNoteTime_loop_fold:
  "earliestNoteTime_loop ns e = fold min (map StartTime_midi ns) e"
  by (induction ns arbitrary: e) (auto simp: min_def)

text \<open>
  The loop computes the minimum of the start times and of its initial value, so it is the
  earliest start time only when some note starts before the initial value 999999.
\<close>

lemma earliestNoteTime_loop_Min:
  "earliestNoteTime_loop ns e = Min (insert e (StartTime_midi ` set ns))"
  using Min.set_eq_fold [of e "map StartTime_midi ns"]
  by (simp add: earliestNoteTime_loop_fold)

text \<open>
  For a guitar track with a note that starts before 999999 seconds, \<open>LoadMIDITrack\<close>
  offsets by the earliest start time, drops the notes whose adjusted start exceeds 30
  seconds, clips the durations of the others and sets the session duration to 30 seconds.
\<close>

lemma gameNotes_loop_eq:
  "gameNotes_loop earliest ns acc
     = acc @ map (session_note earliest) (filter (\<lambda>n. adjustedStart earliest n \<le> 30) ns)"
  by (induction ns arbitrary: acc)
    (auto simp: Let_def GAME_DURATION_def LANE_WIDTH_def NOTE_HEIGHT_def session_note_def
      adjustedStart_def)

lemma earliestNoteTime_loop_is_min:
  assumes "n \<in> set ns" "StartTime_midi n < 999999"
  shows "earliestNoteTime_loop ns 999999 = Min (StartTime_midi ` set ns)"
proof -
  let ?S = "StartTime_midi ` set ns"
  have ne: "?S \<noteq> {}" using assms(1) by auto
  have "Min ?S \<le> StartTime_midi n"
    using assms(1) by simp
  with assms(2) have lt: "Min ?S < 999999" by simp
  have "Min (insert 999999 ?S) = min 999999 (Min ?S)"
    using ne by (intro Min_insert) simp_all
  with lt show ?thesis
    by (simp add: earliestNoteTime_loop_Min min_def)
qed

lemma LoadMIDITrack_adapts:
  assumes "FindGuitarTrack mp = (Inr track, mp')"
    and "n \<in> set (Notes track)" "StartTime_midi n < 999999"
  shows "\<exists>g'. LoadMIDITrack mp g = Inr (g', mp')
     \<and> gameNotes g' = map (session_note (Min (StartTime_midi ` set (Notes track))))
                         (filter (\<lambda>n. adjustedStart (Min (StartTime_midi ` set (Notes track))) n \<le> 30)
                            (Notes track))
     \<and> songDuration g' = 30
     \<and> totalNotes g' = int (length (gameNotes g'))"
  using assms(1) earliestNoteTime_loop_is_min [OF assms(2,3)]
  by (auto simp: LoadMIDITrack_def Let_def gameNotes_loop_eq GAME_DURATION_def split: option.splits)

lemma session_note_within:
  "adjustedStart earliest n \<le> 30 \<Longrightarrow>
   StartTime (session_note earliest n) \<le> 30
   \<and> StartTime (session_note earliest n) + Duration (session_note earliest n) \<le> 30"
  by (simp add: session_note_def)

text \<open>
  Claim C6, at the chart \<open>late_chart\<close>. The start time of its only note is what
  \<open>ticksToSeconds\<close> gives for 2000000 ticks at one tick per beat and the default tempo.
  The earliest start time is 1000000, but the loop returns its initial value 999999, and
  the note is placed at 3.0 seconds instead of the lead-in of 2.0 seconds.
\<close>

theorem LoadMIDITrack_late_chart:
  "ticksToSeconds \<lparr>data = [], position = 0, ticksPerBeat = 1, tempo = 500000\<rparr> 2000000 = 1000000
   \<and> map (map StartTime_midi \<circ> Notes) (tracks late_chart) = [[1000000]]
   \<and> earliestNoteTime_loop (Notes (hd (tracks late_chart))) 999999 = 999999
   \<and> map_sum id (\<lambda>(g, mp). map StartTime (gameNotes g)) (LoadMIDITrack late_chart (NewGame True))
       = Inr [3]"
  by (simp add: LoadMIDITrack_def late_chart_def NewGame_def FindGuitarTrack_def isGuitarTrack_def
      assignLanes_def assignLanes_note_def Let_def GAME_DURATION_def LANE_WIDTH_def NOTE_HEIGHT_def
      Initialize_def NewAudioManager_def LoadMIDITrack_am_def ticksToSeconds_def)

subsection \<open>Audio synthesis\<close>

lemma sin_quarter_turn: "sin (4401 * pi / 2) = 1"
proof -
  have eq: "4401 * pi / 2 = pi / 2 + 2200 * pi" by simp
  show ?thesis
    unfolding eq sin_add by simp
qed

lemma midiToFrequency_69: "midiToFrequency 69 = 440"
  by (simp add: midiToFrequency_def)

text \<open>
  Claim C4, at the streamer \<open>two_notes\<close> and the sample time \<open>4401 / 1760\<close>, where both
  notes are active, past their fades, and the sine of both is 1. The first note of the
  list is added undivided (0.2 times the pan weight 0.6), the second is divided by 2: the
  divisor is the number of active notes met so far in the list, not the number of notes
  active at that time. The output is 0.18 on each channel; with both notes divided by 2
  it would be 0.12.
\<close>

theorem synthesizeAtTime_two_notes:
  "synthesizeAtTime_note (4401 / 1760) (notes_ms two_notes ! 0) (0, 0, 0) = (3 / 25, 3 / 25, 1)
   \<and> synthesizeAtTime_note (4401 / 1760) (notes_ms two_notes ! 1) (3 / 25, 3 / 25, 1)
       = (9 / 50, 9 / 50, 2)
   \<and> synthesizeAtTime two_notes (4401 / 1760) = (9 / 50, 9 / 50)"
  by (simp add: synthesizeAtTime_def two_notes_def synthesizeAtTime_note_def midiToFrequency_69
      Let_def sin_quarter_turn clamp_sample_def)

subsection \<open>Evaluation of the engine on concrete sessions\<close>

lemmas engine_defs = Update_def StartGame_def EndGame_def updateInput_def updateInput_lane_def
  handleKeyPress_def handleKeyRelease_def findClosestNote_def updateNotes_def updateNotes_note_def
  updateSustainedNotes_def updateSustainedNotes_note_def checkMissedNotes_def checkMissedNotes_note_def
  checkAllNotesProcessed_def addScore_def calculateAccuracy_def isSustainedNote_def
  handleKeyRelease_note_def int32_of_float_def Update_am_def StartPlayback_def StopPlayback_def
  NOTE_SPEED_def Let_def

lemmas new_game_defs = NewGame_def Initialize_def NewAudioManager_def LANE_WIDTH_def

lemma single_note_game_eq:
  "single_note_game d =
     (let dur = (if 2 + d > 30 then 28 else d) in
      (NewGame True)
        \<lparr>gameNotes := [\<lparr>StartTime = 2, Duration = dur, Lane = 0, Y = 0, Width = 180,
                         Height = 40, IsActive = True, IsHit = False, HitAccuracy = Miss,
                         IsPressed = False, PressStartTime = 0, IsBeingHeld = False,
                         SustainProgress = 0\<rparr>],
         songDuration := 30, totalNotes := 1,
         audioManager := Some \<lparr>isInitialized = True, isPlaying = False,
             musicStream = Some \<lparr>notes_ms = [\<lparr>Pitch = 50, Velocity = 80, StartTime_midi = 2,
                                               Duration_midi = dur, Lane_midi = 0\<rparr>],
                                  currentSample = 0, startTime_ms = None\<rparr>,
             currentTime_am = 0, startTime_am = None\<rparr>\<rparr>)"
  by (simp add: single_note_game_def single_note_chart_def LoadMIDITrack_def FindGuitarTrack_def
      isGuitarTrack_def assignLanes_def assignLanes_note_def Let_def GAME_DURATION_def
      LANE_WIDTH_def NOTE_HEIGHT_def NewGame_def Initialize_def NewAudioManager_def
      LoadMIDITrack_am_def)

subsection \<open>Miss sweep\<close>

text \<open>The sweep decides without looking at \<open>IsPressed\<close>.\<close>

lemma checkMissedNotes_note_ignores_pressed:
  "checkMissedNotes_note (n\<lparr>IsPressed := p\<rparr>) g
     = (fst (checkMissedNotes_note n g)\<lparr>IsPressed := p\<rparr>, snd (checkMissedNotes_note n g))"
  by (simp add: checkMissedNotes_note_def)

text \<open>
  Claim C1, on the session of \<open>single_note_game 1\<close> (one note in lane 0 from 2.0s to
  3.0s), started at wall-clock time 100. In the frame at 2.0s the key A goes down exactly
  on the note: it is judged Perfect and held (\<open>IsPressed\<close>, not \<open>IsHit\<close>). In the frame at
  2.25s the key is still down, and \<open>checkMissedNotes\<close> resolves the held note as Miss:
  its test reads \<open>IsActive\<close> and \<open>IsHit\<close> only.
\<close>

theorem checkMissedNotes_sweeps_held_note:
  "map_sum id (\<lambda>g. (gameNotes g, score g, missedHits g, state g))
     (run_frames [(102, key_A_pressed)] (StartGame 100 (single_note_game 1)))
   = Inr ([\<lparr>StartTime = 2, Duration = 1, Lane = 0, Y = 500, Width = 180, Height = 40,
            IsActive = True, IsHit = False, HitAccuracy = Perfect, IsPressed = True,
            PressStartTime = 2, IsBeingHeld = True, SustainProgress = 0\<rparr>],
          0, 0, StatePlaying)
   \<and> map_sum id (\<lambda>g. (gameNotes g, score g, missedHits g, state g))
       (run_frames [(102, key_A_pressed), (409 / 4, key_A_held)]
          (StartGame 100 (single_note_game 1)))
     = Inr ([\<lparr>StartTime = 2, Duration = 1, Lane = 0, Y = 550, Width = 180, Height = 40,
              IsActive = True, IsHit = True, HitAccuracy = Miss, IsPressed = True,
              PressStartTime = 2, IsBeingHeld = True, SustainProgress = 1 / 4\<rparr>],
            0, 1, StateGameOver)"
  by (simp add: single_note_game_eq new_game_defs engine_defs key_A_pressed_def key_A_held_def)

subsection \<open>Restart of a session\<close>

text \<open>
  Claim C2, on the game in which a session of \<open>single_note_game 1\<close> ends after the key A
  went down on the note at 2.0s and was still down at 2.25s. \<open>StartGame\<close> (at wall-clock
  time 200) sets the counters and the clock to zero and every note to active and not hit,
  but the
  note keeps \<open>IsPressed\<close>, \<open>IsBeingHeld\<close>, \<open>PressStartTime = 2\<close>, \<open>SustainProgress = 1/4\<close>
  and its judgment. In the first frame of the new session, half a second in and with no
  key touched, \<open>updateSustainedNotes\<close> takes the note for one whose key was released too
  early and resolves it as Miss, 1.5 seconds before it is due.
\<close>

theorem StartGame_keeps_sustain_state:
  "(case run_frames [(102, key_A_pressed), (409 / 4, key_A_held)]
           (StartGame 100 (single_note_game 1)) of
      Inl e \<Rightarrow> False
    | Inr g \<Rightarrow>
        (let g' = StartGame 200 g
         in (score g', combo g', maxCombo g', perfectHits g', goodHits g', okHits g',
             missedHits g', currentTime g', gameStartTime g', state g')
              = (0, 0, 0, 0, 0, 0, 0, 0, 200, StatePlaying)
            \<and> gameNotes g'
              = [\<lparr>StartTime = 2, Duration = 1, Lane = 0, Y = 550, Width = 180, Height = 40,
                  IsActive = True, IsHit = False, HitAccuracy = Miss, IsPressed = True,
                  PressStartTime = 2, IsBeingHeld = True, SustainProgress = 1 / 4\<rparr>]
            \<and> map_sum id (\<lambda>g. (gameNotes g, missedHits g, state g))
                  (run_frames [(401 / 2, no_keys)] g')
              = Inr ([\<lparr>StartTime = 2, Duration = 1, Lane = 0, Y = 200, Width = 180,
                       Height = 40, IsActive = True, IsHit = True, HitAccuracy = Miss,
                       IsPressed = False, PressStartTime = 2, IsBeingHeld = False,
                       SustainProgress = 1 / 4\<rparr>],
                     1, StateGameOver)))"
  by (simp add: single_note_game_eq new_game_defs engine_defs key_A_pressed_def key_A_held_def
      no_keys_def)

subsection \<open>Key release of a held note\<close>

lemma handleKeyRelease_loop_first:
  "list_all (\<lambda>m. \<not> held_in_lane laneIndex m) pre \<Longrightarrow> held_in_lane laneIndex note \<Longrightarrow>
   handleKeyRelease_loop laneIndex (pre @ note # post) g
     = (pre @ fst (handleKeyRelease_note note g) # post, snd (handleKeyRelease_note note g))"
  by (induction pre) (auto simp: held_in_lane_def split: prod.splits)

lemma handleKeyRelease_loop_none:
  "list_all (\<lambda>m. \<not> held_in_lane laneIndex m) ns \<Longrightarrow>
   handleKeyRelease_loop laneIndex ns g = (ns, g)"
  by (induction ns) (auto simp: held_in_lane_def split: prod.splits)

lemma handleKeyRelease_note_eq:
  "handleKeyRelease_note note g =
     (let final = (if release_judgment g note = Miss then downgrade_one_tier (HitAccuracy note)
                   else HitAccuracy note);
          g1 = addScore final g
      in (note\<lparr>IsPressed := False, IsBeingHeld := False, IsHit := True\<rparr>,
          g1\<lparr>score := score g1 + (if SustainProgress note > 0.8
                                     then \<lfloor>50 * SustainProgress note\<rfloor> else 0)\<rparr>))"
  by (cases "HitAccuracy note")
    (simp_all add: handleKeyRelease_note_def Let_def release_judgment_def int32_of_float_def)

text \<open>
  The game after \<open>handleKeyRelease\<close>, when the first held note of the lane is \<open>note\<close>:
  the game after \<open>addScore\<close> of the final judgment (plus the sustain bonus), with that
  note hit and no longer pressed. The final judgment is the start judgment one tier down
  (Perfect to Good, Good to OK, OK and Miss unchanged) when the release judgment is Miss,
  and the start judgment otherwise. The field \<open>HitAccuracy\<close> of the note is not written.
\<close>

lemma handleKeyRelease_first_held:
  assumes "gameNotes g = pre @ note # post"
    and "list_all (\<lambda>m. \<not> held_in_lane laneIndex m) pre"
    and "held_in_lane laneIndex note"
  shows "handleKeyRelease laneIndex g =
     (let final = (if release_judgment g note = Miss then downgrade_one_tier (HitAccuracy note)
                   else HitAccuracy note);
          g1 = addScore final g
      in g1\<lparr>score := score g1 + (if SustainProgress note > 0.8
                                    then \<lfloor>50 * SustainProgress note\<rfloor> else 0),
            gameNotes := pre @ note\<lparr>IsPressed := False, IsBeingHeld := False, IsHit := True\<rparr> # post\<rparr>)"
  using assms
  by (simp add: handleKeyRelease_def handleKeyRelease_loop_first handleKeyRelease_note_eq Let_def)

text \<open>
  Claim C8, on a session of \<open>single_note_game 1\<close> (one note in lane 0 from 2.0s to 3.0s).
  The key A goes down on the note at 2.0s (start judgment Perfect) and is released at
  2.15s, 0.85 seconds before the end of the note: the release judgment is Miss. The note
  is scored one tier down, as Good (75 points, \<open>goodHits = 1\<close>, \<open>perfectHits = 0\<close>), but
  it is not resolved with that judgment: its \<open>HitAccuracy\<close> stays Perfect, since
  \<open>handleKeyRelease\<close> passes the final judgment to \<open>addScore\<close> and never writes it to the
  note, where the short-note press, the early release and the miss sweep each write the
  judgment they score.
\<close>

theorem handleKeyRelease_keeps_start_judgment:
  "map_sum id (\<lambda>g. (map IsHit (gameNotes g), map HitAccuracy (gameNotes g), score g,
                      perfectHits g, goodHits g))
     (run_frames [(102, key_A_pressed)] (StartGame 100 (single_note_game 1)))
   = Inr ([False], [Perfect], 0, 0, 0)
   \<and> map_sum id (\<lambda>g. (map IsHit (gameNotes g), map HitAccuracy (gameNotes g), score g,
                        perfectHits g, goodHits g))
       (run_frames [(102, key_A_pressed), (2043 / 20, key_A_released)]
          (StartGame 100 (single_note_game 1)))
     = Inr ([True], [Perfect], 75, 0, 1)"
  by (simp add: single_note_game_eq new_game_defs engine_defs key_A_pressed_def
      key_A_released_def)

subsection \<open>Sustain bonus\<close>






text \<open>
  The two games are what \<open>Update\<close> hands to \<open>handleKeyRelease\<close> (through
  \<open>updateInput\<close>) and to \<open>updateSustainedNotes\<close> in those frames.
\<close>

lemma release_entry_game_in_Update:
  "(case run_frames [(102, key_A_pressed), (1027 / 10, key_A_held)]
           (StartGame 100 (single_note_game (4 / 5))) of
      Inl e \<Rightarrow> False
    | Inr g \<Rightarrow>
        Update 201 key_A_released (StartGame 200 g)
        = (case updateSustainedNotes
                  (updateNotes
                     (updateInput_lane key_A_released 2
                        (updateInput_lane key_A_released 1
                           (handleKeyRelease 0 release_entry_game)))) of
             Inl e \<Rightarrow> Inl e
           | Inr g3 \<Rightarrow> Inr (checkAllNotesProcessed (checkMissedNotes g3))))"
  by (simp add: release_entry_game_def single_note_game_eq new_game_defs engine_defs
      key_A_pressed_def key_A_held_def key_A_released_def)

lemma auto_complete_entry_game_in_Update:
  "(case run_frames [(102, key_A_pressed), (2043 / 20, key_A_held)]
           (StartGame 100 (single_note_game (2 / 5))) of
      Inl e \<Rightarrow> False
    | Inr g \<Rightarrow>
        Update (205 / 2) key_A_held g
        = (case updateSustainedNotes auto_complete_entry_game of
             Inl e \<Rightarrow> Inl e
           | Inr g3 \<Rightarrow> Inr (checkAllNotesProcessed (checkMissedNotes g3))))"
  by (simp add: auto_complete_entry_game_def single_note_game_eq new_game_defs engine_defs
      key_A_pressed_def key_A_held_def)



subsection \<open>A hit note is final\<close>

lemma hit_kept_refl [simp]: "hit_kept n n"
  by (simp add: hit_kept_def)

lemma hit_kept_trans: "hit_kept a b \<Longrightarrow> hit_kept b c \<Longrightarrow> hit_kept a c"
  by (auto simp: hit_kept_def)

lemma all2_hit_kept_refl [simp]: "list_all2 hit_kept ns ns"
  by (simp add: list_all2_refl)

lemma all2_hit_kept_trans:
  "list_all2 hit_kept as bs \<Longrightarrow> list_all2 hit_kept bs cs \<Longrightarrow> list_all2 hit_kept as cs"
  by (rule list_all2_trans [of hit_kept hit_kept hit_kept]) (auto intro: hit_kept_trans)

lemma addScore_gameNotes [simp]: "gameNotes (addScore a g) = gameNotes g"
  by (cases a) (simp_all add: addScore_def Let_def)

lemma notes_loop_hit_kept:
  assumes "\<And>n g. hit_kept n (fst (body n g))"
  shows "list_all2 hit_kept ns (fst (notes_loop body ns g))"
proof (induction ns arbitrary: g)
  case Nil
  show ?case by simp
next
  case (Cons n ns)
  obtain n' g1 where b: "body n g = (n', g1)" by (cases "body n g")
  obtain ns' g2 where l: "notes_loop body ns g1 = (ns', g2)" by (cases "notes_loop body ns g1")
  from assms [of n g] b have "hit_kept n n'" by simp
  moreover from Cons.IH [of g1] l have "list_all2 hit_kept ns ns'" by simp
  ultimately show ?case by (simp add: b l)
qed

lemma checkMissedNotes_note_hit_kept: "hit_kept n (fst (checkMissedNotes_note n g))"
  by (simp add: checkMissedNotes_note_def hit_kept_def)

lemma checkMissedNotes_hit_kept: "list_all2 hit_kept (gameNotes g) (gameNotes (checkMissedNotes g))"
proof -
  obtain ns' g' where l: "notes_loop checkMissedNotes_note (gameNotes g) g = (ns', g')"
    by (cases "notes_loop checkMissedNotes_note (gameNotes g) g")
  from notes_loop_hit_kept [of checkMissedNotes_note "gameNotes g" g, OF checkMissedNotes_note_hit_kept]
  show ?thesis by (simp add: checkMissedNotes_def l)
qed

lemma updateNotes_hit_kept: "list_all2 hit_kept (gameNotes g) (gameNotes (updateNotes g))"
  by (simp add: updateNotes_def list_all2_map2 list_all2_refl updateNotes_note_def Let_def hit_kept_def)

lemma updateSustainedNotes_note_hit_kept:
  "updateSustainedNotes_note n g = Inr (n', g') \<Longrightarrow> hit_kept n n'"
  by (auto simp: updateSustainedNotes_note_def hit_kept_def Let_def split: if_splits)

lemma updateSustainedNotes_loop_hit_kept:
  "updateSustainedNotes_loop ns g = Inr (ns', g') \<Longrightarrow> list_all2 hit_kept ns ns'"
proof (induction ns arbitrary: g ns')
  case Nil
  then show ?case by simp
next
  case (Cons n ns)
  from Cons.prems obtain n1 g1 where b: "updateSustainedNotes_note n g = Inr (n1, g1)"
    by (auto split: sum.splits)
  with Cons.prems obtain ns1 where l: "updateSustainedNotes_loop ns g1 = Inr (ns1, g')" "ns' = n1 # ns1"
    by (auto split: sum.splits)
  from updateSustainedNotes_note_hit_kept [OF b] Cons.IH [OF l(1)] l(2) show ?case by simp
qed

lemma updateSustainedNotes_hit_kept:
  "updateSustainedNotes g = Inr g' \<Longrightarrow> list_all2 hit_kept (gameNotes g) (gameNotes g')"
  by (auto simp: updateSustainedNotes_def split: sum.splits dest: updateSustainedNotes_loop_hit_kept)

lemma handleKeyRelease_note_hit_kept: "hit_kept n (fst (handleKeyRelease_note n g))"
  by (simp add: handleKeyRelease_note_def hit_kept_def Let_def)

lemma handleKeyRelease_loop_hit_kept:
  "list_all2 hit_kept ns (fst (handleKeyRelease_loop laneIndex ns g))"
proof (induction ns)
  case Nil
  show ?case by simp
next
  case (Cons n ns)
  show ?case
  proof (cases "held_in_lane laneIndex n")
    case True
    then show ?thesis
      using handleKeyRelease_note_hit_kept [of n g]
      by (auto simp: held_in_lane_def split: prod.splits)
  next
    case False
    with Cons.IH show ?thesis
      by (auto simp: held_in_lane_def split: prod.splits)
  qed
qed

lemma handleKeyRelease_hit_kept:
  "list_all2 hit_kept (gameNotes g) (gameNotes (handleKeyRelease laneIndex g))"
proof -
  obtain ns' g' where l: "handleKeyRelease_loop laneIndex (gameNotes g) g = (ns', g')"
    by (cases "handleKeyRelease_loop laneIndex (gameNotes g) g")
  from handleKeyRelease_loop_hit_kept [of "gameNotes g" laneIndex g]
  show ?thesis by (simp add: handleKeyRelease_def l)
qed

lemma findClosestNote_loop_unhit:
  "findClosestNote_loop now laneIndex ns i0 m c = Some j \<Longrightarrow>
   c = Some j \<or> (i0 \<le> j \<and> j < i0 + length ns \<and> \<not> IsHit (ns ! (j - i0)))"
proof (induction ns arbitrary: i0 m c)
  case Nil
  then show ?case by simp
next
  case (Cons n ns)
  have shift: "c' = Some j \<or> (i0 \<le> j \<and> j < i0 + length (n # ns) \<and> \<not> IsHit ((n # ns) ! (j - i0)))"
    if "c' = Some j \<or> (Suc i0 \<le> j \<and> j < Suc i0 + length ns \<and> \<not> IsHit (ns ! (j - Suc i0)))"
    for c'
  proof (cases "c' = Some j")
    case True
    then show ?thesis by simp
  next
    case False
    with that have a: "Suc i0 \<le> j" "j < Suc i0 + length ns" "\<not> IsHit (ns ! (j - Suc i0))"
      by simp_all
    from a(1) have "j - i0 = Suc (j - Suc i0)" by arith
    with a show ?thesis by simp
  qed
  show ?case
  proof (cases "\<not> IsActive n \<or> IsHit n \<or> IsPressed n \<or> Lane n \<noteq> laneIndex")
    case True
    with Cons.prems have "findClosestNote_loop now laneIndex ns (Suc i0) m c = Some j"
      by (auto split: if_splits)
    from shift [OF Cons.IH [OF this]] show ?thesis .
  next
    case False
    show ?thesis
    proof (cases "StartTime n - now < m \<and> StartTime n - now > - 0.2")
      case True
      with False Cons.prems
      have "findClosestNote_loop now laneIndex ns (Suc i0) (StartTime n - now) (Some i0) = Some j"
        by (simp add: Let_def)
      from shift [OF Cons.IH [OF this]] False show ?thesis
        by auto
    next
      case F2: False
      with False Cons.prems have "findClosestNote_loop now laneIndex ns (Suc i0) m c = Some j"
        by (auto simp: Let_def)
      from shift [OF Cons.IH [OF this]] show ?thesis .
    qed
  qed
qed

lemma findClosestNote_unhit:
  "findClosestNote g laneIndex = Some i \<Longrightarrow> i < length (gameNotes g) \<and> \<not> IsHit (gameNotes g ! i)"
  using findClosestNote_loop_unhit [of "currentTime g" laneIndex "gameNotes g" 0 1000000 None i]
  by (simp add: findClosestNote_def)

lemma list_update_hit_kept:
  "i < length ns \<Longrightarrow> \<not> IsHit (ns ! i) \<Longrightarrow> list_all2 hit_kept ns (ns[i := x])"
  by (simp add: list_all2_conv_all_nth nth_list_update hit_kept_def)

lemma handleKeyPress_hit_kept:
  "list_all2 hit_kept (gameNotes g) (gameNotes (handleKeyPress laneIndex g))"
proof (cases "findClosestNote g laneIndex")
  case None
  then show ?thesis by (simp add: handleKeyPress_def)
next
  case (Some i)
  from findClosestNote_unhit [OF Some] show ?thesis
    by (simp add: handleKeyPress_def Some Let_def list_update_hit_kept)
qed

lemma updateInput_lane_hit_kept:
  "list_all2 hit_kept (gameNotes g) (gameNotes (updateInput_lane kb i g))"
proof -
  let ?g1 = "g\<lparr>lanes := (lanes g)(i := (lanes g i)\<lparr>IsPressed_lane := IsKeyDown kb (KeyCode (lanes g i))\<rparr>)\<rparr>"
  let ?g2 = "if IsKeyPressed kb (KeyCode (lanes g i)) then handleKeyPress (int i) ?g1 else ?g1"
  have a: "list_all2 hit_kept (gameNotes g) (gameNotes ?g2)"
    using handleKeyPress_hit_kept [of ?g1 "int i"] by simp
  have b: "list_all2 hit_kept (gameNotes ?g2) (gameNotes (updateInput_lane kb i g))"
    using handleKeyRelease_hit_kept [of ?g2 "int i"]
    by (simp add: updateInput_lane_def Let_def)
  from a b show ?thesis by (rule all2_hit_kept_trans)
qed

lemma updateInput_hit_kept:
  "list_all2 hit_kept (gameNotes g) (gameNotes (updateInput kb g))"
  unfolding updateInput_def
  by (blast intro: all2_hit_kept_trans updateInput_lane_hit_kept)

lemma EndGame_gameNotes [simp]: "gameNotes (EndGame g) = gameNotes g"
  by (simp add: EndGame_def Let_def split: option.splits)

lemma checkAllNotesProcessed_gameNotes [simp]: "gameNotes (checkAllNotesProcessed g) = gameNotes g"
  by (simp add: checkAllNotesProcessed_def Let_def)

lemma Update_hit_kept:
  assumes "Update now kb g = Inr g'"
  shows "list_all2 hit_kept (gameNotes g) (gameNotes g')"
proof (cases "state g \<noteq> StatePlaying")
  case True
  with assms show ?thesis by (simp add: Update_def)
next
  case playing: False
  define g2 where "g2 = (case audioManager g of
                    None \<Rightarrow> g\<lparr>currentTime := now - gameStartTime g\<rparr>
                  | Some am \<Rightarrow> g\<lparr>currentTime := now - gameStartTime g, audioManager := Some (Update_am now am)\<rparr>)"
  have n2: "gameNotes g2 = gameNotes g" by (simp add: g2_def split: option.splits)
  show ?thesis
  proof (cases "currentTime g2 > songDuration g2")
    case True
    with assms playing have "g' = EndGame g2"
      by (auto simp: Update_def Let_def g2_def split: option.splits)
    with n2 show ?thesis by simp
  next
    case False
    with assms playing obtain g3 where
      s: "updateSustainedNotes (updateNotes (updateInput kb g2)) = Inr g3"
      and e: "g' = checkAllNotesProcessed (checkMissedNotes g3)"
      by (auto simp: Update_def Let_def g2_def split: option.splits sum.splits)
    have "list_all2 hit_kept (gameNotes g2) (gameNotes (updateNotes (updateInput kb g2)))"
      by (blast intro: all2_hit_kept_trans updateInput_hit_kept updateNotes_hit_kept)
    with updateSustainedNotes_hit_kept [OF s]
    have "list_all2 hit_kept (gameNotes g2) (gameNotes g3)"
      by (blast intro: all2_hit_kept_trans)
    with checkMissedNotes_hit_kept [of g3] e n2 show ?thesis
      by (auto intro: all2_hit_kept_trans)
  qed
qed

lemma run_frames_hit_kept:
  "run_frames fs g = Inr g' \<Longrightarrow> list_all2 hit_kept (gameNotes g) (gameNotes g')"
proof (induction fs arbitrary: g)
  case Nil
  then show ?case by simp
next
  case (Cons f fs)
  obtain now kb where f: "f = (now, kb)" by (cases f)
  with Cons.prems obtain g1 where u: "Update now kb g = Inr g1" and r: "run_frames fs g1 = Inr g'"
    by (auto split: sum.splits)
  from Update_hit_kept [OF u] Cons.IH [OF r] show ?case
    by (rule all2_hit_kept_trans)
qed


lemma drop_hit_idem [simp]: "drop_hit (drop_hit g) = drop_hit g"
  by (simp add: drop_hit_def)

lemma gameNotes_drop_hit: "gameNotes (drop_hit g) = filter (\<lambda>n. \<not> IsHit n) (gameNotes g)"
  by (simp add: drop_hit_def)

lemma drop_hit_set_notes:
  "drop_hit (g\<lparr>gameNotes := ns\<rparr>) = g\<lparr>gameNotes := filter (\<lambda>n. \<not> IsHit n) ns\<rparr>"
  by (simp add: drop_hit_def)

lemma addScore_frame: "addScore a (g\<lparr>gameNotes := x\<rparr>) = (addScore a g)\<lparr>gameNotes := x\<rparr>"
  by (cases a) (simp_all add: addScore_def Let_def)

lemma notes_loop_frame:
  assumes "\<And>n g x. body n (g\<lparr>gameNotes := x\<rparr>) = (fst (body n g), (snd (body n g))\<lparr>gameNotes := x\<rparr>)"
  shows "notes_loop body ns (g\<lparr>gameNotes := x\<rparr>)
         = (fst (notes_loop body ns g), (snd (notes_loop body ns g))\<lparr>gameNotes := x\<rparr>)"
proof (induction ns arbitrary: g)
  case Nil
  show ?case by simp
next
  case (Cons n ns)
  show ?case
    by (simp add: assms Cons.IH split: prod.splits)
qed

lemma notes_loop_filter:
  assumes "\<And>n g. IsHit n \<Longrightarrow> body n g = (n, g)"
  shows "snd (notes_loop body (filter (\<lambda>n. \<not> IsHit n) ns) g) = snd (notes_loop body ns g)
       \<and> filter (\<lambda>n. \<not> IsHit n) (fst (notes_loop body (filter (\<lambda>n. \<not> IsHit n) ns) g))
          = filter (\<lambda>n. \<not> IsHit n) (fst (notes_loop body ns g))"
proof (induction ns arbitrary: g)
  case Nil
  show ?case by simp
next
  case (Cons n ns)
  show ?case
  proof (cases "IsHit n")
    case True
    with assms [of n g] Cons.IH [of g] show ?thesis
      by (simp split: prod.splits)
  next
    case False
    obtain n' g1 where b: "body n g = (n', g1)" by (cases "body n g")
    from False b Cons.IH [of g1] show ?thesis
      by (auto split: prod.splits)
  qed
qed

lemma checkMissedNotes_drop_hit:
  "drop_hit (checkMissedNotes (drop_hit g)) = drop_hit (checkMissedNotes g)"
proof -
  have fr: "\<And>n g x. checkMissedNotes_note n (g\<lparr>gameNotes := x\<rparr>)
      = (fst (checkMissedNotes_note n g), (snd (checkMissedNotes_note n g))\<lparr>gameNotes := x\<rparr>)"
    by (simp add: checkMissedNotes_note_def addScore_frame)
  have sk: "\<And>n g. IsHit n \<Longrightarrow> checkMissedNotes_note n g = (n, g)"
    by (simp add: checkMissedNotes_note_def)
  note f = notes_loop_filter [of checkMissedNotes_note "gameNotes g" g, OF sk]
  show ?thesis
    using f
    by (simp add: checkMissedNotes_def drop_hit_def notes_loop_frame [of checkMissedNotes_note, OF fr]
        split: prod.splits)
qed


lemma updateNotes_drop_hit:
  "drop_hit (updateNotes (drop_hit g)) = drop_hit (updateNotes g)"
proof -
  have a: "updateNotes_note (g\<lparr>gameNotes := x\<rparr>) = updateNotes_note g" for x
    by (rule ext) (simp add: updateNotes_note_def)
  have b: "(\<lambda>n. \<not> IsHit n) \<circ> updateNotes_note g = (\<lambda>n. \<not> IsHit n)"
    by (rule ext) (simp add: updateNotes_note_def Let_def)
  show ?thesis
    by (simp add: updateNotes_def drop_hit_def a filter_map b)
qed

lemma updateSustainedNotes_note_frame:
  "updateSustainedNotes_note n (g\<lparr>gameNotes := x\<rparr>)
     = map_sum id (\<lambda>(n', g'). (n', g'\<lparr>gameNotes := x\<rparr>)) (updateSustainedNotes_note n g)"
  by (simp add: updateSustainedNotes_note_def Let_def addScore_frame)

lemma updateSustainedNotes_loop_frame:
  "updateSustainedNotes_loop ns (g\<lparr>gameNotes := x\<rparr>)
     = map_sum id (\<lambda>(ns', g'). (ns', g'\<lparr>gameNotes := x\<rparr>)) (updateSustainedNotes_loop ns g)"
proof (induction ns arbitrary: g)
  case Nil
  show ?case by simp
next
  case (Cons n ns)
  show ?case
    by (auto simp: updateSustainedNotes_note_frame Cons.IH split: sum.splits)
qed

lemma updateSustainedNotes_loop_filter:
  "(case updateSustainedNotes_loop ns g of
      Inl e \<Rightarrow> updateSustainedNotes_loop (filter (\<lambda>n. \<not> IsHit n) ns) g = Inl e
    | Inr (ns', g') \<Rightarrow>
        (case updateSustainedNotes_loop (filter (\<lambda>n. \<not> IsHit n) ns) g of
           Inl e \<Rightarrow> False
         | Inr (ms', h') \<Rightarrow> h' = g' \<and> filter (\<lambda>n. \<not> IsHit n) ms' = filter (\<lambda>n. \<not> IsHit n) ns'))"
proof (induction ns arbitrary: g)
  case Nil
  show ?case by simp
next
  case (Cons n ns)
  show ?case
  proof (cases "IsHit n")
    case True
    then have "updateSustainedNotes_note n g = Inr (n, g)"
      by (simp add: updateSustainedNotes_note_def)
    with True Cons.IH [of g] show ?thesis
      by (auto split: sum.splits)
  next
    case False
    show ?thesis
    proof (cases "updateSustainedNotes_note n g")
      case (Inl e)
      with False show ?thesis by simp
    next
      case (Inr r)
      obtain n' g1 where r: "r = (n', g1)" by (cases r)
      from False Inr r Cons.IH [of g1] show ?thesis
        by (auto split: sum.splits)
    qed
  qed
qed

lemma updateSustainedNotes_drop_hit:
  "map_sum id drop_hit (updateSustainedNotes (drop_hit g)) = map_sum id drop_hit (updateSustainedNotes g)"
proof (cases "updateSustainedNotes_loop (gameNotes g) g")
  case (Inl e)
  with updateSustainedNotes_loop_filter [of "gameNotes g" g]
  have "updateSustainedNotes_loop (filter (\<lambda>n. \<not> IsHit n) (gameNotes g)) g = Inl e"
    by simp
  with Inl show ?thesis
    by (simp add: updateSustainedNotes_def drop_hit_def updateSustainedNotes_loop_frame)
next
  case (Inr r)
  obtain ns' g' where r: "r = (ns', g')" by (cases r)
  with Inr updateSustainedNotes_loop_filter [of "gameNotes g" g]
  obtain ms' where m: "updateSustainedNotes_loop (filter (\<lambda>n. \<not> IsHit n) (gameNotes g)) g = Inr (ms', g')"
    "filter (\<lambda>n. \<not> IsHit n) ms' = filter (\<lambda>n. \<not> IsHit n) ns'"
    by (auto split: sum.splits)
  with Inr r show ?thesis
    by (simp add: updateSustainedNotes_def drop_hit_def updateSustainedNotes_loop_frame)
qed

lemma handleKeyRelease_note_frame:
  "handleKeyRelease_note n (g\<lparr>gameNotes := x\<rparr>)
     = (fst (handleKeyRelease_note n g), (snd (handleKeyRelease_note n g))\<lparr>gameNotes := x\<rparr>)"
  by (simp add: handleKeyRelease_note_def Let_def addScore_frame)

lemma handleKeyRelease_loop_frame:
  "handleKeyRelease_loop laneIndex ns (g\<lparr>gameNotes := x\<rparr>)
     = (fst (handleKeyRelease_loop laneIndex ns g),
        (snd (handleKeyRelease_loop laneIndex ns g))\<lparr>gameNotes := x\<rparr>)"
proof (induction ns)
  case Nil
  show ?case by simp
next
  case (Cons n ns)
  show ?case
    by (simp add: handleKeyRelease_note_frame Cons.IH split: prod.splits)
qed

lemma handleKeyRelease_loop_filter:
  "snd (handleKeyRelease_loop laneIndex (filter (\<lambda>n. \<not> IsHit n) ns) g)
     = snd (handleKeyRelease_loop laneIndex ns g)
   \<and> filter (\<lambda>n. \<not> IsHit n) (fst (handleKeyRelease_loop laneIndex (filter (\<lambda>n. \<not> IsHit n) ns) g))
     = filter (\<lambda>n. \<not> IsHit n) (fst (handleKeyRelease_loop laneIndex ns g))"
proof (induction ns)
  case Nil
  show ?case by simp
next
  case (Cons n ns)
  show ?case
  proof (cases "held_in_lane laneIndex n")
    case True
    then show ?thesis
      by (auto simp: held_in_lane_def split: prod.splits)
  next
    case False
    with Cons.IH show ?thesis
      by (auto simp: held_in_lane_def split: prod.splits)
  qed
qed

lemma handleKeyRelease_drop_hit:
  "drop_hit (handleKeyRelease laneIndex (drop_hit g)) = drop_hit (handleKeyRelease laneIndex g)"
  using handleKeyRelease_loop_filter [of laneIndex "gameNotes g" g]
  by (simp add: handleKeyRelease_def drop_hit_def handleKeyRelease_loop_frame split: prod.splits)


lemma filter_split_at:
  assumes "i < length ns"
  shows "filter P ns = filter P (take i ns) @ filter P [ns ! i] @ filter P (drop (Suc i) ns)"
proof -
  from assms have "ns = take i ns @ ns ! i # drop (Suc i) ns"
    by (simp add: id_take_nth_drop)
  then have "filter P ns = filter P (take i ns @ ns ! i # drop (Suc i) ns)"
    by simp
  then show ?thesis by simp
qed

lemma filter_nth_kept:
  assumes "i < length ns" "P (ns ! i)"
  shows "filter P ns ! length (filter P (take i ns)) = ns ! i"
  using assms filter_split_at [OF assms(1), of P] by (simp add: nth_append)

lemma filter_update_kept:
  assumes "i < length ns" "P (ns ! i)"
  shows "filter P ((filter P ns)[length (filter P (take i ns)) := x]) = filter P (ns[i := x])"
proof -
  have a: "filter P ns = filter P (take i ns) @ ns ! i # filter P (drop (Suc i) ns)"
    using assms filter_split_at [OF assms(1), of P] by simp
  have b: "ns[i := x] = take i ns @ x # drop (Suc i) ns"
    using assms(1) by (simp add: upd_conv_take_nth_drop)
  have "(filter P ns)[length (filter P (take i ns)) := x]
        = filter P (take i ns) @ x # filter P (drop (Suc i) ns)"
    by (subst a) (simp add: list_update_append)
  then show ?thesis
    by (simp add: b)
qed

lemma findClosestNote_loop_filter:
  "full = pre @ ns \<Longrightarrow>
   findClosestNote_loop now laneIndex (filter (\<lambda>n. \<not> IsHit n) ns)
       (length (filter (\<lambda>n. \<not> IsHit n) pre)) m
       (map_option (\<lambda>i. length (filter (\<lambda>n. \<not> IsHit n) (take i full))) c)
   = map_option (\<lambda>i. length (filter (\<lambda>n. \<not> IsHit n) (take i full)))
       (findClosestNote_loop now laneIndex ns (length pre) m c)"
proof (induction ns arbitrary: pre m c)
  case Nil
  show ?case by simp
next
  case (Cons n ns)
  from Cons.prems have full: "full = (pre @ [n]) @ ns" by simp
  note ih = Cons.IH [OF full]
  have here: "length (filter (\<lambda>n. \<not> IsHit n) (take (length pre) full))
              = length (filter (\<lambda>n. \<not> IsHit n) pre)"
    using Cons.prems by simp
  show ?case
  proof (cases "IsHit n")
    case True
    with ih [of m c] show ?thesis by simp
  next
    case False
    then have len: "length (filter (\<lambda>n. \<not> IsHit n) (pre @ [n]))
                    = Suc (length (filter (\<lambda>n. \<not> IsHit n) pre))"
      by simp
    show ?thesis
    proof (cases "\<not> IsActive n \<or> IsPressed n \<or> Lane n \<noteq> laneIndex")
      case True
      with False ih [of m c] len show ?thesis by auto
    next
      case cand: False
      show ?thesis
      proof (cases "StartTime n - now < m \<and> StartTime n - now > - 0.2")
        case True
        with False cand ih [of "StartTime n - now" "Some (length pre)"] len here show ?thesis
          by (simp add: Let_def)
      next
        case F: False
        with False cand ih [of m c] len show ?thesis
          by (auto simp: Let_def)
      qed
    qed
  qed
qed

lemma findClosestNote_drop_hit:
  "findClosestNote (drop_hit g) laneIndex
     = map_option (\<lambda>i. length (filter (\<lambda>n. \<not> IsHit n) (take i (gameNotes g))))
         (findClosestNote g laneIndex)"
  using findClosestNote_loop_filter [of "gameNotes g" "[]" "gameNotes g" "currentTime g" laneIndex 1000000 None]
  by (simp add: findClosestNote_def drop_hit_def)

lemma handleKeyPress_drop_hit:
  "drop_hit (handleKeyPress laneIndex (drop_hit g)) = drop_hit (handleKeyPress laneIndex g)"
proof (cases "findClosestNote g laneIndex")
  case None
  then show ?thesis
    by (simp add: handleKeyPress_def findClosestNote_drop_hit)
next
  case (Some i)
  from findClosestNote_unhit [OF Some]
  have i: "i < length (gameNotes g)" "\<not> IsHit (gameNotes g ! i)" by simp_all
  let ?j = "length (filter (\<lambda>n. \<not> IsHit n) (take i (gameNotes g)))"
  have f: "findClosestNote (drop_hit g) laneIndex = Some ?j"
    by (simp add: findClosestNote_drop_hit Some)
  have nth: "gameNotes (drop_hit g) ! ?j = gameNotes g ! i"
    using filter_nth_kept [of i "gameNotes g" "\<lambda>n. \<not> IsHit n"] i
    by (simp add: drop_hit_def)
  have upd: "filter (\<lambda>n. \<not> IsHit n) ((filter (\<lambda>n. \<not> IsHit n) (gameNotes g))[?j := x])
             = filter (\<lambda>n. \<not> IsHit n) ((gameNotes g)[i := x])" for x
    using filter_update_kept [of i "gameNotes g" "\<lambda>n. \<not> IsHit n" x] i by simp
  have ct: "currentTime (drop_hit g) = currentTime g" by (simp add: drop_hit_def)
  show ?thesis
    unfolding handleKeyPress_def Some f option.case nth ct Let_def
    by (simp add: drop_hit_def addScore_frame upd)
qed


lemma drop_hit_respects:
  assumes "\<And>g. drop_hit (P (drop_hit g)) = drop_hit (P g)" and "drop_hit g = drop_hit h"
  shows "drop_hit (P g) = drop_hit (P h)"
  by (metis assms)

lemma drop_hit_respects_sum:
  assumes "\<And>g. map_sum id drop_hit (P (drop_hit g)) = map_sum id drop_hit (P g)"
    and "drop_hit g = drop_hit h"
  shows "map_sum id drop_hit (P g) = map_sum id drop_hit (P h)"
  by (metis assms)

lemma drop_hit_fields [simp]:
  "lanes (drop_hit g) = lanes g" "state (drop_hit g) = state g"
  "audioManager (drop_hit g) = audioManager g" "gameStartTime (drop_hit g) = gameStartTime g"
  "currentTime (drop_hit g) = currentTime g" "songDuration (drop_hit g) = songDuration g"
  by (simp_all add: drop_hit_def)

lemma drop_hit_updates:
  "(drop_hit g)\<lparr>lanes := l\<rparr> = drop_hit (g\<lparr>lanes := l\<rparr>)"
  "(drop_hit g)\<lparr>currentTime := t\<rparr> = drop_hit (g\<lparr>currentTime := t\<rparr>)"
  "(drop_hit g)\<lparr>audioManager := a\<rparr> = drop_hit (g\<lparr>audioManager := a\<rparr>)"
  by (simp_all add: drop_hit_def)

lemma updateInput_lane_drop_hit:
  "drop_hit (updateInput_lane kb i (drop_hit g)) = drop_hit (updateInput_lane kb i g)"
proof -
  define code where "code = KeyCode (lanes g i)"
  define g1 where "g1 = g\<lparr>lanes := (lanes g)(i := (lanes g i)\<lparr>IsPressed_lane := IsKeyDown kb code\<rparr>)\<rparr>"
  define g2 where "g2 = (if IsKeyPressed kb code then handleKeyPress (int i) g1 else g1)"
  define h2 where "h2 = (if IsKeyPressed kb code then handleKeyPress (int i) (drop_hit g1) else drop_hit g1)"
  have a: "updateInput_lane kb i g = (if IsKeyReleased kb code then handleKeyRelease (int i) g2 else g2)"
    by (simp add: updateInput_lane_def Let_def code_def g1_def g2_def)
  have b: "updateInput_lane kb i (drop_hit g)
           = (if IsKeyReleased kb code then handleKeyRelease (int i) h2 else h2)"
    by (simp add: updateInput_lane_def Let_def code_def g1_def h2_def drop_hit_updates)
  have c: "drop_hit h2 = drop_hit g2"
    by (simp add: h2_def g2_def handleKeyPress_drop_hit)
  have d: "drop_hit (handleKeyRelease (int i) h2) = drop_hit (handleKeyRelease (int i) g2)"
    using c by (rule drop_hit_respects [of "handleKeyRelease (int i)", OF handleKeyRelease_drop_hit])
  show ?thesis
    unfolding a b using c d by simp
qed

lemma updateInput_drop_hit:
  "drop_hit (updateInput kb (drop_hit g)) = drop_hit (updateInput kb g)"
proof -
  note r = drop_hit_respects [of "updateInput_lane kb i" for i, OF updateInput_lane_drop_hit]
  have "drop_hit (updateInput_lane kb 0 (drop_hit g)) = drop_hit (updateInput_lane kb 0 g)"
    by (rule updateInput_lane_drop_hit)
  then have "drop_hit (updateInput_lane kb 1 (updateInput_lane kb 0 (drop_hit g)))
           = drop_hit (updateInput_lane kb 1 (updateInput_lane kb 0 g))"
    by (rule r)
  then have "drop_hit (updateInput_lane kb 2 (updateInput_lane kb 1 (updateInput_lane kb 0 (drop_hit g))))
           = drop_hit (updateInput_lane kb 2 (updateInput_lane kb 1 (updateInput_lane kb 0 g)))"
    by (rule r)
  then show ?thesis by (simp add: updateInput_def)
qed

lemma EndGame_drop_hit: "EndGame (drop_hit g) = drop_hit (EndGame g)"
  by (simp add: EndGame_def drop_hit_def Let_def split: option.splits)

lemma checkAllNotesProcessed_drop_hit:
  "checkAllNotesProcessed (drop_hit g) = drop_hit (checkAllNotesProcessed g)"
  by (simp add: checkAllNotesProcessed_def Let_def EndGame_drop_hit) (simp add: drop_hit_def)

lemma Update_drop_hit:
  "map_sum id drop_hit (Update now kb (drop_hit g)) = map_sum id drop_hit (Update now kb g)"
proof (cases "state g \<noteq> StatePlaying")
  case True
  then show ?thesis by (simp add: Update_def drop_hit_def)
next
  case playing: False
  define g2 where "g2 = (case audioManager g of
                    None \<Rightarrow> g\<lparr>currentTime := now - gameStartTime g\<rparr>
                  | Some am \<Rightarrow> g\<lparr>currentTime := now - gameStartTime g, audioManager := Some (Update_am now am)\<rparr>)"
  define rest where "rest = (\<lambda>g2. if currentTime g2 > songDuration g2 then Inr (EndGame g2)
           else
             (case updateSustainedNotes (updateNotes (updateInput kb g2)) of
                Inl e \<Rightarrow> Inl e
              | Inr g3 \<Rightarrow> Inr (checkAllNotesProcessed (checkMissedNotes g3))))"
  have a: "Update now kb g = rest g2"
    using playing by (simp add: Update_def Let_def g2_def rest_def split: option.splits)
  have b: "Update now kb (drop_hit g) = rest (drop_hit g2)"
    using playing by (simp add: Update_def Let_def g2_def rest_def drop_hit_updates split: option.splits)
  have "map_sum id drop_hit (rest (drop_hit g2)) = map_sum id drop_hit (rest g2)"
  proof (cases "currentTime g2 > songDuration g2")
    case True
    then show ?thesis
      by (simp add: rest_def EndGame_drop_hit)
  next
    case False
    have n: "drop_hit (updateNotes (updateInput kb (drop_hit g2))) = drop_hit (updateNotes (updateInput kb g2))"
      using updateInput_drop_hit [of kb g2]
      by (rule drop_hit_respects [of updateNotes, OF updateNotes_drop_hit])
    have s: "map_sum id drop_hit (updateSustainedNotes (updateNotes (updateInput kb (drop_hit g2))))
           = map_sum id drop_hit (updateSustainedNotes (updateNotes (updateInput kb g2)))"
      using n by (rule drop_hit_respects_sum [of updateSustainedNotes, OF updateSustainedNotes_drop_hit])
    have fin: "drop_hit (checkAllNotesProcessed (checkMissedNotes a))
             = drop_hit (checkAllNotesProcessed (checkMissedNotes b))" if "drop_hit a = drop_hit b" for a b
    proof -
      from that have "drop_hit (checkMissedNotes a) = drop_hit (checkMissedNotes b)"
        by (rule drop_hit_respects [of checkMissedNotes, OF checkMissedNotes_drop_hit])
      then show ?thesis
        by (simp add: checkAllNotesProcessed_drop_hit [symmetric])
    qed
    have cf: "currentTime (drop_hit g2) = currentTime g2" "songDuration (drop_hit g2) = songDuration g2"
      by simp_all
    show ?thesis
    proof (cases "updateSustainedNotes (updateNotes (updateInput kb g2))")
      case (Inl e)
      with s have "updateSustainedNotes (updateNotes (updateInput kb (drop_hit g2))) = Inl e"
        by (cases "updateSustainedNotes (updateNotes (updateInput kb (drop_hit g2)))") simp_all
      with Inl False cf show ?thesis by (simp add: rest_def)
    next
      case (Inr g3)
      with s obtain h3 where h: "updateSustainedNotes (updateNotes (updateInput kb (drop_hit g2))) = Inr h3"
        "drop_hit h3 = drop_hit g3"
        by (cases "updateSustainedNotes (updateNotes (updateInput kb (drop_hit g2)))") simp_all
      with Inr False cf fin [OF h(2)] show ?thesis by (simp add: rest_def)
    qed
  qed
  then show ?thesis by (simp add: a b)
qed

lemma run_frames_respects:
  "drop_hit g = drop_hit h \<Longrightarrow>
   map_sum id drop_hit (run_frames fs g) = map_sum id drop_hit (run_frames fs h)"
proof (induction fs arbitrary: g h)
  case Nil
  then show ?case by simp
next
  case (Cons f fs)
  obtain now kb where f: "f = (now, kb)" by (cases f)
  from Cons.prems
  have u: "map_sum id drop_hit (Update now kb g) = map_sum id drop_hit (Update now kb h)"
    by (rule drop_hit_respects_sum [of "Update now kb", OF Update_drop_hit])
  show ?case
  proof (cases "Update now kb g")
    case (Inl e)
    with u have "Update now kb h = Inl e" by (cases "Update now kb h") simp_all
    with Inl f show ?thesis by simp
  next
    case (Inr g1)
    with u obtain h1 where h: "Update now kb h = Inr h1" "drop_hit g1 = drop_hit h1"
      by (cases "Update now kb h") simp_all
    with Inr f Cons.IH [OF h(2)] show ?thesis by simp
  qed
qed

lemma run_frames_drop_hit:
  "map_sum id drop_hit (run_frames fs (drop_hit g)) = map_sum id drop_hit (run_frames fs g)"
  by (rule run_frames_respects) simp

text \<open>
  Claim C9. Over any frames of a session (\<open>run_frames\<close>, that is \<open>Update\<close> frame after
  frame), the list of notes keeps its length, and a note that is hit stays hit with the
  judgment it has. A hit note contributes nothing further: the game after the frames is the
  same, up to the hit notes in its list, whether or not the notes already hit are in the
  list at the start; in particular the score, the combo, the counters and the state are the
  same. Each resolution path only takes notes that are not hit: \<open>findClosestNote\<close> (short-note
  press and start of a hold) returns a note that is not hit, the bodies of
  \<open>updateSustainedNotes\<close> (auto-complete, early release) and of \<open>checkMissedNotes\<close> (miss
  sweep) leave a hit note and the game as they are, and a hit note is never the held note
  that \<open>handleKeyRelease\<close> resolves.
\<close>

theorem hit_is_final:
  "(run_frames frames g = Inr g' \<longrightarrow>
      length (gameNotes g') = length (gameNotes g)
      \<and> (\<forall>i < length (gameNotes g). IsHit (gameNotes g ! i) \<longrightarrow>
             IsHit (gameNotes g' ! i)
             \<and> HitAccuracy (gameNotes g' ! i) = HitAccuracy (gameNotes g ! i)))
   \<and> map_sum id drop_hit (run_frames frames (drop_hit g))
       = map_sum id drop_hit (run_frames frames g)
   \<and> map_sum id (\<lambda>g. (score g, combo g, maxCombo g, perfectHits g, goodHits g, okHits g,
                        missedHits g, state g)) (run_frames frames (drop_hit g))
       = map_sum id (\<lambda>g. (score g, combo g, maxCombo g, perfectHits g, goodHits g, okHits g,
                          missedHits g, state g)) (run_frames frames g)
   \<and> (findClosestNote g laneIndex = Some k \<longrightarrow>
        k < length (gameNotes g) \<and> \<not> IsHit (gameNotes g ! k))
   \<and> (IsHit n \<longrightarrow>
        updateSustainedNotes_note n g = Inr (n, g)
        \<and> checkMissedNotes_note n g = (n, g)
        \<and> \<not> held_in_lane laneIndex n)"
proof (intro conjI impI)
  assume r: "run_frames frames g = Inr g'"
  from run_frames_hit_kept [OF r]
  show "length (gameNotes g') = length (gameNotes g)"
    by (simp add: list_all2_lengthD)
  from run_frames_hit_kept [OF r]
  show "\<forall>i < length (gameNotes g). IsHit (gameNotes g ! i) \<longrightarrow>
             IsHit (gameNotes g' ! i)
             \<and> HitAccuracy (gameNotes g' ! i) = HitAccuracy (gameNotes g ! i)"
    by (simp add: list_all2_conv_all_nth hit_kept_def)
next
  show d: "map_sum id drop_hit (run_frames frames (drop_hit g))
       = map_sum id drop_hit (run_frames frames g)"
    by (rule run_frames_drop_hit)
  define stats where "stats = (\<lambda>g :: Game. (score g, combo g, maxCombo g, perfectHits g, goodHits g,
                       okHits g, missedHits g, state g))"
  have proj: "map_sum id stats (map_sum id drop_hit x) = map_sum id stats x" for x
    by (cases x) (simp_all add: drop_hit_def stats_def)
  have "map_sum id stats (run_frames frames (drop_hit g))
        = map_sum id stats (map_sum id drop_hit (run_frames frames (drop_hit g)))"
    by (simp only: proj)
  also have "\<dots> = map_sum id stats (map_sum id drop_hit (run_frames frames g))"
    by (simp only: d)
  also have "\<dots> = map_sum id stats (run_frames frames g)"
    by (simp only: proj)
  finally show "map_sum id (\<lambda>g. (score g, combo g, maxCombo g, perfectHits g, goodHits g, okHits g,
                        missedHits g, state g)) (run_frames frames (drop_hit g))
       = map_sum id (\<lambda>g. (score g, combo g, maxCombo g, perfectHits g, goodHits g, okHits g,
                          missedHits g, state g)) (run_frames frames g)"
    unfolding stats_def .
next
  assume "findClosestNote g laneIndex = Some k"
  then show "k < length (gameNotes g)" "\<not> IsHit (gameNotes g ! k)"
    by (simp_all add: findClosestNote_unhit)
next
  assume "IsHit n"
  then show "updateSustainedNotes_note n g = Inr (n, g)" "checkMissedNotes_note n g = (n, g)"
    "\<not> held_in_lane laneIndex n"
    by (simp_all add: updateSustainedNotes_note_def checkMissedNotes_note_def held_in_lane_def)
qed

theorem hit_is_final_witness:
  "IsHit (gameNotes one_of_two_hit_game ! 0)
   \<and> HitAccuracy (gameNotes one_of_two_hit_game ! 0) = Perfect
   \<and> findClosestNote one_of_two_hit_game 0 = Some 1
   \<and> map_sum id (\<lambda>g. (map IsHit (gameNotes g), map HitAccuracy (gameNotes g)))
         (run_frames [(104, key_A_pressed), (521 / 5, key_A_released)] one_of_two_hit_game)
       = Inr ([True, True], [Perfect, Perfect])
   \<and> map_sum id (\<lambda>g. (score g, combo g, maxCombo g, perfectHits g, goodHits g, okHits g,
                        missedHits g, state g))
         (run_frames [(104, key_A_pressed), (521 / 5, key_A_released)] one_of_two_hit_game)
       = Inr (200, 2, 2, 2, 0, 0, 0, StateGameOver)
   \<and> map_sum id (\<lambda>g. (score g, combo g, maxCombo g, perfectHits g, goodHits g, okHits g,
                        missedHits g, state g))
         (run_frames [(104, key_A_pressed), (521 / 5, key_A_released)]
            (drop_hit one_of_two_hit_game))
       = Inr (200, 2, 2, 2, 0, 0, 0, StateGameOver)"
proof -
  define g where "g = one_of_two_hit_game"
  define frames where "frames = [(104 :: real, key_A_pressed), (521 / 5, key_A_released)]"
  have h0: "IsHit (gameNotes g ! 0)" "HitAccuracy (gameNotes g ! 0) = Perfect"
    by (simp_all add: g_def one_of_two_hit_game_def)
  have f: "findClosestNote g 0 = Some 1"
    by (simp add: g_def one_of_two_hit_game_def findClosestNote_def new_game_defs)
  have r1: "map_sum id (\<lambda>g. (map IsHit (gameNotes g), map HitAccuracy (gameNotes g)))
              (run_frames frames g) = Inr ([True, True], [Perfect, Perfect])"
    unfolding g_def frames_def
    by (simp add: one_of_two_hit_game_def new_game_defs engine_defs key_A_pressed_def
        key_A_released_def)
  have r2: "map_sum id (\<lambda>g. (score g, combo g, maxCombo g, perfectHits g, goodHits g, okHits g,
                        missedHits g, state g)) (run_frames frames g)
            = Inr (200, 2, 2, 2, 0, 0, 0, StateGameOver)"
    unfolding g_def frames_def
    by (simp add: one_of_two_hit_game_def new_game_defs engine_defs key_A_pressed_def
        key_A_released_def)
  from r1 obtain g' where r: "run_frames frames g = Inr g'"
    by (cases "run_frames frames g") simp_all
  note t = hit_is_final [of frames g g' 0 1 "gameNotes g ! 0"]
  from t r h0 have keep: "IsHit (gameNotes g' ! 0)" "HitAccuracy (gameNotes g' ! 0) = Perfect"
    by (simp_all add: g_def one_of_two_hit_game_def)
  from t have "map_sum id (\<lambda>g. (score g, combo g, maxCombo g, perfectHits g, goodHits g, okHits g,
                        missedHits g, state g)) (run_frames frames (drop_hit g))
       = map_sum id (\<lambda>g. (score g, combo g, maxCombo g, perfectHits g, goodHits g, okHits g,
                          missedHits g, state g)) (run_frames frames g)"
    by (elim conjE)
  with r2 have r3: "map_sum id (\<lambda>g. (score g, combo g, maxCombo g, perfectHits g, goodHits g, okHits g,
                        missedHits g, state g)) (run_frames frames (drop_hit g))
            = Inr (200, 2, 2, 2, 0, 0, 0, StateGameOver)"
    by (simp only:)
  from h0 f r1 r2 r3 show ?thesis
    unfolding g_def frames_def by (intro conjI)
qed

end
